theory Spec2Isabelle
  imports Complex_Main "HOL-Library.Log_Nat"
begin

section \<open>Numbers and the math helpers\<close>

text \<open>
  The program computes with JavaScript numbers, which are IEEE 754 doubles. The rates and
  the tips are modelled as exact reals, with the \<open>1e-8\<close> that the source adds before
  flooring and rounding written out; this is what the evaluated examples use, at amounts
  of a few dollars where no rounding of a double operation comes near a cent boundary.
  The arithmetic of the bill breakdown, and the rate computation where a property is
  stated for all amounts, are modelled with the rounding of every double operation
  (section \<open>The rounding of double operations\<close>). A value that is not finite (\<open>NaN\<close>, the
  result of \<open>parseFloat\<close> on text without a number) is \<open>None\<close> of a \<open>real option\<close>.

  \<open>Math.floor\<close> is \<open>floor\<close>; \<open>Math.round\<close> rounds to the nearest integer with ties
  towards plus infinity, which is \<open>floor (x + 1/2)\<close>; \<open>Math.ceil\<close> is \<open>ceiling\<close>.
\<close>

definition Math_round :: "real \<Rightarrow> int" where
  "Math_round x = \<lfloor>x + 1 / 2\<rfloor>"

definition eps :: real where
  "eps = 1 / 10 ^ 8"

definition truncateToTwoDecimals :: "real \<Rightarrow> real" where
  "truncateToTwoDecimals v = of_int \<lfloor>v * 100 + eps\<rfloor> / 100"

definition roundToTwoDecimals :: "real \<Rightarrow> real" where
  "roundToTwoDecimals v = of_int (Math_round (v * 100 + eps)) / 100"

section \<open>The rounding of double operations\<close>

text \<open>
  A finite double is a real \<open>m * 2^e\<close> with an integer \<open>m\<close> of at most 53 bits. An
  arithmetic operation of the program returns the exact result rounded to the nearest
  double, a tie going to the double with the even \<open>m\<close>. \<open>fl\<close> is that rounding: for
  \<open>2^e \<le> |x| < 2^(e+1)\<close> the doubles around \<open>x\<close> are the multiples of \<open>2^(e-52)\<close>, and
  \<open>x\<close> goes to the nearest of them. The range of the exponent is not bounded in the model:
  the overflow to \<open>Infinity\<close> above \<open>1.8e308\<close> and the coarser subnormal numbers below
  \<open>2.2e-308\<close> are left out.
\<close>

definition roundHalfEven :: "real \<Rightarrow> int" where
  "roundHalfEven y =
     (let f = \<lfloor>y\<rfloor> in
      if y - of_int f < 1 / 2 then f
      else if 1 / 2 < y - of_int f then f + 1
      else if even f then f else f + 1)"

definition pow2 :: "int \<Rightarrow> real" where
  "pow2 e = (if 0 \<le> e then 2 ^ nat e else 1 / 2 ^ nat (- e))"

text \<open>
  The binary exponent of a number other than zero, the \<open>e\<close> with \<open>2^e \<le> |x| < 2^(e+1)\<close>,
  from the number of bits of the integer part, or of the reciprocal when \<open>|x| < 1\<close>.
\<close>

definition exponent :: "real \<Rightarrow> int" where
  "exponent x =
     (if 1 \<le> \<bar>x\<bar> then bitlen \<lfloor>\<bar>x\<bar>\<rfloor> - 1 else - bitlen (\<lceil>1 / \<bar>x\<bar>\<rceil> - 1))"

definition fl :: "real \<Rightarrow> real" where
  "fl x =
     (if x = 0 then 0
      else let ulp = pow2 (exponent x - 52) in of_int (roundHalfEven (x / ulp)) * ulp)"

text \<open>
  \<open>truncateToTwoDecimals\<close> and the two lines of \<open>runCalculations\<close> that compute the
  hourly rate, with the rounding of each double operation: the quotient
  \<open>totalTipsVal / totalHours\<close>, the product \<open>value * 100\<close>, the literal \<open>1e-8\<close>, the sum, and
  the quotient by 100. \<open>Math.floor\<close> is exact.
\<close>

definition truncateToTwoDecimals_fl :: "real \<Rightarrow> real" where
  "truncateToTwoDecimals_fl v = fl (of_int \<lfloor>fl (fl (v * 100) + fl eps)\<rfloor> / 100)"

definition hourlyRate_fl :: "real \<Rightarrow> real \<Rightarrow> real" where
  "hourlyRate_fl totalTipsVal totalHours =
     (let hourlyRateRaw = fl (totalTipsVal / totalHours)
      in truncateToTwoDecimals_fl hourlyRateRaw)"

section \<open>Bill breakdown\<close>

record bills =
  twenties :: int
  tens :: int
  fives :: int
  ones :: int

text \<open>
  \<open>breakdownBills\<close> of the source: \<open>remaining\<close> starts as
  \<open>Math.max(0, Math.floor(amountWholeDollars))\<close> and each denomination takes
  \<open>Math.floor(remaining / d)\<close> notes, after which \<open>remaining -= notes * d\<close>. The quotient,
  the product and the difference are double operations and are rounded; \<open>Math.floor\<close> and
  \<open>Math.max\<close> are exact. \<open>remaining\<close> is a whole number throughout, and \<open>ones\<close> is what
  remains at the end.
\<close>

definition breakdownBills :: "real \<Rightarrow> bills" where
  "breakdownBills amountWholeDollars =
     (let remaining0 = max 0 (of_int \<lfloor>amountWholeDollars\<rfloor> :: real);
          tw = \<lfloor>fl (remaining0 / 20)\<rfloor>;
          remaining1 = fl (remaining0 - fl (of_int tw * 20));
          te = \<lfloor>fl (remaining1 / 10)\<rfloor>;
          remaining2 = fl (remaining1 - fl (of_int te * 10));
          fi = \<lfloor>fl (remaining2 / 5)\<rfloor>;
          remaining3 = fl (remaining2 - fl (of_int fi * 5));
          on = \<lfloor>remaining3\<rfloor>
      in \<lparr>twenties = tw, tens = te, fives = fi, ones = on\<rparr>)"

definition billsValue :: "bills \<Rightarrow> int" where
  "billsValue b = 20 * twenties b + 10 * tens b + 5 * fives b + ones b"

section \<open>Whole-dollar payout policies\<close>

text \<open>
  The payout step of \<open>runCalculations\<close>. One variant of the source rounds to the nearest
  dollar, \<open>decimalTip > 0 ? Math.round(decimalTip + 1e-8) : 0\<close>; another rounds up,
  \<open>decimalTip > 0 ? Math.ceil(decimalTip - 1e-8) : 0\<close>.
\<close>

definition wholeDollarPayout_nearest :: "real \<Rightarrow> int" where
  "wholeDollarPayout_nearest decimalTip =
     (if decimalTip > 0 then Math_round (decimalTip + eps) else 0)"

definition wholeDollarPayout_up :: "real \<Rightarrow> int" where
  "wholeDollarPayout_up decimalTip =
     (if decimalTip > 0 then \<lceil>decimalTip - eps\<rceil> else 0)"

section \<open>The allocator\<close>

text \<open>
  The module-global state of the source: the partner table, and the snapshot of the last
  calculation that the redistribution reads. A partner's hours are a number or text in
  the source (\<open>typeof p.hours === "number" ? p.hours : parseFloat(p.hours)\<close>); the model
  keeps the number read from it, \<open>None\<close> when it is not finite.
\<close>

record partner =
  p_id :: nat
  p_name :: string
  p_number :: string
  p_hours :: "real option"

record calc_result =
  r_name :: string
  r_number :: string
  r_hours :: real
  decimalTip :: real
  wholeDollarPayout :: int
  breakdown :: bills

record summary =
  s_hourlyRate :: real
  s_totalTips :: real
  sumDecimalTips :: real
  sumWholeDollarPayout :: int
  s_totalHours :: real
  totalsBills :: bills

record app_state =
  partners :: "partner list"
  lastCalculationResults :: "calc_result list"
  lastHourlyRate :: real

datatype calc_error = InvalidTotalTips | InvalidTotalHours

text \<open>The \<open>reduce\<close> that sums the finite hours of the partner table.\<close>

definition totalHoursOf :: "partner list \<Rightarrow> real" where
  "totalHoursOf ps =
     foldl (\<lambda>sum p. case p_hours p of Some h \<Rightarrow> sum + h | None \<Rightarrow> sum) 0 ps"

text \<open>
  The body of \<open>partners.forEach\<close> in \<open>runCalculations\<close>. The whole-dollar step is the one
  line in which the variants of the source differ, so it is a parameter here.
\<close>

definition calcPartner :: "(real \<Rightarrow> int) \<Rightarrow> real \<Rightarrow> partner \<Rightarrow> calc_result" where
  "calcPartner payout hourlyRateTruncated p =
     (let safeHours = (case p_hours p of Some h \<Rightarrow> if h > 0 then h else 0 | None \<Rightarrow> 0);
          rawTip = hourlyRateTruncated * safeHours;
          dt = roundToTwoDecimals rawTip;
          whole = payout dt;
          bd = breakdownBills (of_int whole)
      in \<lparr>r_name = p_name p, r_number = p_number p, r_hours = safeHours,
          decimalTip = dt, wholeDollarPayout = whole, breakdown = bd\<rparr>)"

definition addBills :: "bills \<Rightarrow> bills \<Rightarrow> bills" where
  "addBills a b = \<lparr>twenties = twenties a + twenties b, tens = tens a + tens b,
                   fives = fives a + fives b, ones = ones a + ones b\<rparr>"

definition noBills :: bills where
  "noBills = \<lparr>twenties = 0, tens = 0, fives = 0, ones = 0\<rparr>"

record calc_acc =
  acc_results :: "calc_result list"
  acc_sumDecimalTips :: real
  acc_sumWholeDollarPayout :: int
  acc_totalsBills :: bills

definition calcStep :: "(real \<Rightarrow> int) \<Rightarrow> real \<Rightarrow> calc_acc \<Rightarrow> partner \<Rightarrow> calc_acc" where
  "calcStep payout rate acc p =
     (let r = calcPartner payout rate p
      in \<lparr>acc_results = acc_results acc @ [r],
          acc_sumDecimalTips = acc_sumDecimalTips acc + decimalTip r,
          acc_sumWholeDollarPayout = acc_sumWholeDollarPayout acc + wholeDollarPayout r,
          acc_totalsBills = addBills (acc_totalsBills acc) (breakdown r)\<rparr>)"

text \<open>
  The calculation proper: the two validations (an \<open>alert\<close> and a return in the source, an
  error value here), the truncated rate, and the loop over the partners.
\<close>

definition calculate ::
  "(real \<Rightarrow> int) \<Rightarrow> real option \<Rightarrow> partner list \<Rightarrow> calc_error + calc_result list \<times> summary" where
  "calculate payout totalTipsVal ps =
     (case totalTipsVal of
        None \<Rightarrow> Inl InvalidTotalTips
      | Some t \<Rightarrow>
          if t \<le> 0 then Inl InvalidTotalTips
          else let totalHours = totalHoursOf ps in
            if totalHours \<le> 0 then Inl InvalidTotalHours
            else let hourlyRateRaw = t / totalHours;
                     hourlyRateTruncated = truncateToTwoDecimals hourlyRateRaw;
                     acc = foldl (calcStep payout hourlyRateTruncated)
                             \<lparr>acc_results = [], acc_sumDecimalTips = 0,
                              acc_sumWholeDollarPayout = 0, acc_totalsBills = noBills\<rparr> ps
                 in Inr (acc_results acc,
                      \<lparr>s_hourlyRate = hourlyRateTruncated, s_totalTips = t,
                       sumDecimalTips = acc_sumDecimalTips acc,
                       sumWholeDollarPayout = acc_sumWholeDollarPayout acc,
                       s_totalHours = totalHours,
                       totalsBills = acc_totalsBills acc\<rparr>))"

text \<open>
  \<open>runCalculations\<close>, the variant that rounds to the nearest dollar. It replaces the
  snapshot of the last calculation in full; on a validation error nothing is stored.
  The result pairs what is shown (the error, or the result rows and the summary) with
  the state afterwards.
\<close>

definition runCalculations ::
  "real option \<Rightarrow> app_state \<Rightarrow> (calc_error + calc_result list \<times> summary) \<times> app_state" where
  "runCalculations totalTipsVal st =
     (case calculate wholeDollarPayout_nearest totalTipsVal (partners st) of
        Inl e \<Rightarrow> (Inl e, st)
      | Inr (results, sm) \<Rightarrow>
          (Inr (results, sm),
           st\<lparr>lastCalculationResults := results, lastHourlyRate := s_hourlyRate sm\<rparr>))"

text \<open>
  \<open>runCalculations\<close> of the variant that always rounds up to the next dollar. That
  variant has no snapshot: it only shows the results.
\<close>

definition runCalculations_roundUp ::
  "real option \<Rightarrow> app_state \<Rightarrow> (calc_error + calc_result list \<times> summary) \<times> app_state" where
  "runCalculations_roundUp totalTipsVal st =
     (calculate wholeDollarPayout_up totalTipsVal (partners st), st)"

text \<open>The example table of the specification: two partners with 9.22 and 18.48 hours.\<close>

definition example_state :: app_state where
  "example_state =
     \<lparr>partners = [\<lparr>p_id = 1, p_name = ''A'', p_number = ''US1'', p_hours = Some (922 / 100)\<rparr>,
                  \<lparr>p_id = 2, p_name = ''B'', p_number = ''US2'', p_hours = Some (1848 / 100)\<rparr>],
      lastCalculationResults = [], lastHourlyRate = 0\<rparr>"

section \<open>Redistribution of a fixed bill inventory\<close>

text \<open>
  One \<open>while\<close> loop of \<open>redistributeBills\<close>: as long as the partner is still owed at least
  one note of denomination \<open>d\<close> and the inventory has one, hand one over. The triple is
  the amount still owed, the notes of this denomination left in the inventory, and the
  notes of this denomination given to the partner.
\<close>

function allocateWhile :: "int \<Rightarrow> int \<times> int \<times> int \<Rightarrow> int \<times> int \<times> int" where
  "allocateWhile d (remaining, avail, given) =
     (if remaining \<ge> d \<and> avail > 0
      then allocateWhile d (remaining - d, avail - 1, given + 1)
      else (remaining, avail, given))"
  by pat_completeness auto
termination
  by (relation "measure (\<lambda>(d, remaining, avail, given). nat avail)") auto

declare allocateWhile.simps [simp del]

record redist_result = calc_result +
  adjustedPayout :: int

text \<open>
  The body of the loop over the partners: the four \<open>while\<close> loops, then the accepted
  overpayment with one larger note when something is still owed. It returns the inventory
  that is left and the partner's row with the new breakdown.
\<close>

definition redistributePartner :: "bills \<Rightarrow> calc_result \<Rightarrow> bills \<times> redist_result" where
  "redistributePartner remainingBills partner =
     (let (r1, tw_left, tw) =
            allocateWhile 20 (wholeDollarPayout partner, twenties remainingBills, 0);
          (r2, te_left, te) = allocateWhile 10 (r1, tens remainingBills, 0);
          (r3, fi_left, fi) = allocateWhile 5 (r2, fives remainingBills, 0);
          (r4, on_left, on) = allocateWhile 1 (r3, ones remainingBills, 0);
          left = \<lparr>twenties = tw_left, tens = te_left, fives = fi_left, ones = on_left\<rparr>;
          bd = \<lparr>twenties = tw, tens = te, fives = fi, ones = on\<rparr>;
          (remaining, left', bd') =
            (if r4 > 0 then
               if r4 \<le> 4 \<and> fives left > 0
               then (0, left\<lparr>fives := fives left - 1\<rparr>, bd\<lparr>fives := fives bd + 1\<rparr>)
               else if r4 \<le> 9 \<and> tens left > 0
               then (0, left\<lparr>tens := tens left - 1\<rparr>, bd\<lparr>tens := tens bd + 1\<rparr>)
               else if r4 \<le> 19 \<and> twenties left > 0
               then (0, left\<lparr>twenties := twenties left - 1\<rparr>, bd\<lparr>twenties := twenties bd + 1\<rparr>)
               else (r4, left, bd)
             else (r4, left, bd))
      in (left',
          \<lparr>r_name = r_name partner, r_number = r_number partner, r_hours = r_hours partner,
           decimalTip = decimalTip partner, wholeDollarPayout = wholeDollarPayout partner,
           breakdown = bd', adjustedPayout = wholeDollarPayout partner - remaining\<rparr>))"

record redist_acc =
  remainingBills :: bills
  usedBills :: bills
  updatedResults :: "redist_result list"

definition redistributeStep :: "redist_acc \<Rightarrow> calc_result \<Rightarrow> redist_acc" where
  "redistributeStep acc partner =
     (let (left, row) = redistributePartner (remainingBills acc) partner
      in \<lparr>remainingBills = left,
          usedBills = addBills (usedBills acc) (breakdown row),
          updatedResults = updatedResults acc @ [row]\<rparr>)"

text \<open>
  \<open>redistributeBills\<close>. The inventory is what the four inputs hold, each read with
  \<open>parseInt(...) || 0\<close>, so four integers. Without a last calculation the function returns
  at once (\<open>None\<close>). The partners are sorted by payout, largest first, with the stable
  \<open>Array.prototype.sort\<close>, and served in that order. The result is the list of rows that
  is rendered.
\<close>

definition redistributeBills :: "bills \<Rightarrow> app_state \<Rightarrow> redist_result list option" where
  "redistributeBills availableBills st =
     (if lastCalculationResults st = [] then None
      else let sortedResults =
                 sort_key (\<lambda>r. - wholeDollarPayout r) (lastCalculationResults st);
               acc = foldl redistributeStep
                       \<lparr>remainingBills = availableBills, usedBills = noBills,
                        updatedResults = []\<rparr> sortedResults
           in Some (updatedResults acc))"

text \<open>
  Two notions used to state the properties of the redistribution: one inventory is
  componentwise at most another, and the notes of a list of breakdowns added up.
\<close>

definition billsLe :: "bills \<Rightarrow> bills \<Rightarrow> bool" where
  "billsLe a b \<longleftrightarrow> twenties a \<le> twenties b \<and> tens a \<le> tens b \<and> fives a \<le> fives b \<and> ones a \<le> ones b"

definition sumBills :: "bills list \<Rightarrow> bills" where
  "sumBills bs = foldr addBills bs noBills"

text \<open>An example inventory: one twenty, one ten, no fives, two ones.\<close>

definition example_inventory :: bills where
  "example_inventory = \<lparr>twenties = 1, tens = 1, fives = 0, ones = 2\<rparr>"

section \<open>Strings\<close>

text \<open>
  A JavaScript string is modelled as a \<open>string\<close>, a list of 8-bit characters read as the
  code units \<open>0 .. 255\<close> (Latin-1). On these, \<open>\s\<close> of a regular expression and the
  white space of \<open>trim\<close> are the six ASCII white-space characters and the no-break
  space, and \<open>toLowerCase\<close> moves \<open>A .. Z\<close> and the Latin-1 capitals. Code units above 255
  are outside the model.
\<close>

definition code :: "char \<Rightarrow> nat" where
  "code c = of_char c"

definition isDigit :: "char \<Rightarrow> bool" where
  "isDigit c \<longleftrightarrow> 48 \<le> code c \<and> code c \<le> 57"

definition isUpperAZ :: "char \<Rightarrow> bool" where
  "isUpperAZ c \<longleftrightarrow> 65 \<le> code c \<and> code c \<le> 90"

definition isLowerAZ :: "char \<Rightarrow> bool" where
  "isLowerAZ c \<longleftrightarrow> 97 \<le> code c \<and> code c \<le> 122"

definition isSpace :: "char \<Rightarrow> bool" where
  "isSpace c \<longleftrightarrow> code c \<in> {9, 10, 11, 12, 13, 32, 160}"

definition toLowerChar :: "char \<Rightarrow> char" where
  "toLowerChar c =
     (if isUpperAZ c \<or> (192 \<le> code c \<and> code c \<le> 222 \<and> code c \<noteq> 215)
      then char_of (code c + 32) else c)"

definition toLowerCase :: "string \<Rightarrow> string" where
  "toLowerCase s = map toLowerChar s"

definition trim :: "string \<Rightarrow> string" where
  "trim s = rev (dropWhile isSpace (rev (dropWhile isSpace s)))"

text \<open>\<open>String.prototype.includes\<close>: \<open>t\<close> occurs in \<open>s\<close> as a contiguous block.\<close>

fun str_includes :: "string \<Rightarrow> string \<Rightarrow> bool" where
  "str_includes [] t = (t = [])"
| "str_includes (c # s) t = (take (length t) (c # s) = t \<or> str_includes s t)"

section \<open>The two-period (holiday split) variants\<close>

record report_partner =
  rp_name :: string
  rp_number :: string
  rp_hours :: real

subsection \<open>The dashboard variant: merging through a map keyed by the normalized name\<close>

text \<open>\<open>normalizeNameKey\<close>: lower-case, delete everything that is not \<open>a .. z\<close>, trim.\<close>

definition normalizeNameKey :: "string \<Rightarrow> string" where
  "normalizeNameKey name = trim (filter isLowerAZ (toLowerCase name))"

record merged_partner =
  mp_name :: string
  mp_number :: string
  mp_normalHours :: real
  mp_holidayHours :: real

text \<open>
  The \<open>Map\<close> of the source keeps its keys in insertion order: an association list, in
  which \<open>set\<close> replaces the value of a key that is present in place and appends a new key
  at the end.
\<close>

fun map_set :: "'k \<Rightarrow> 'v \<Rightarrow> ('k \<times> 'v) list \<Rightarrow> ('k \<times> 'v) list" where
  "map_set k v [] = [(k, v)]"
| "map_set k v ((k', v') # m) = (if k' = k then (k, v) # m else (k', v') # map_set k v m)"

text \<open>
  The body of the first loop of \<open>calculateHolidaySplitTips\<close>: create the entry when the key
  is new, add the hours of the normal period, take over the partner number when the entry
  has none. The source mutates the entry object inside the map; the model writes the
  updated entry back under the same key.
\<close>

definition addNormalPartner ::
  "(string \<times> merged_partner) list \<Rightarrow> report_partner \<Rightarrow> (string \<times> merged_partner) list" where
  "addNormalPartner partnerMap p =
     (let key = normalizeNameKey (rp_name p);
          e0 = (case map_of partnerMap key of
                  None \<Rightarrow> \<lparr>mp_name = rp_name p, mp_number = rp_number p,
                            mp_normalHours = 0, mp_holidayHours = 0\<rparr>
                | Some e \<Rightarrow> e);
          e1 = e0\<lparr>mp_normalHours := mp_normalHours e0 + rp_hours p\<rparr>;
          e2 = (if rp_number p \<noteq> [] \<and> mp_number e1 = []
                then e1\<lparr>mp_number := rp_number p\<rparr> else e1)
      in map_set key e2 partnerMap)"

text \<open>The body of the second loop: the same with the hours of the holiday period.\<close>

definition addHolidayPartner ::
  "(string \<times> merged_partner) list \<Rightarrow> report_partner \<Rightarrow> (string \<times> merged_partner) list" where
  "addHolidayPartner partnerMap p =
     (let key = normalizeNameKey (rp_name p);
          e0 = (case map_of partnerMap key of
                  None \<Rightarrow> \<lparr>mp_name = rp_name p, mp_number = rp_number p,
                            mp_normalHours = 0, mp_holidayHours = 0\<rparr>
                | Some e \<Rightarrow> e);
          e1 = e0\<lparr>mp_holidayHours := mp_holidayHours e0 + rp_hours p\<rparr>;
          e2 = (if rp_number p \<noteq> [] \<and> mp_number e1 = []
                then e1\<lparr>mp_number := rp_number p\<rparr> else e1)
      in map_set key e2 partnerMap)"

definition buildPartnerMap ::
  "report_partner list \<Rightarrow> report_partner list \<Rightarrow> (string \<times> merged_partner) list" where
  "buildPartnerMap normalPartners holidayPartners =
     foldl addHolidayPartner (foldl addNormalPartner [] normalPartners) holidayPartners"

record split_result =
  sr_name :: string
  sr_number :: string
  sr_normalHours :: real
  sr_holidayHours :: real
  sr_normalTip :: real
  sr_holidayTip :: real
  sr_combinedDecimal :: real
  sr_wholeDollarPayout :: int
  sr_breakdown :: bills

record split_summary =
  totalNormalHours :: real
  totalHolidayHours :: real
  totalNormalTips :: real
  totalHolidayTips :: real
  totalCombinedTips :: real
  totalCombinedPayout :: int
  normalHourlyRate :: real
  holidayHourlyRate :: real
  totalBills :: bills

text \<open>The body of the loop over the map: the tips of both periods and the payout.\<close>

definition splitRow :: "real \<Rightarrow> real \<Rightarrow> merged_partner \<Rightarrow> split_result" where
  "splitRow truncNormalRate truncHolidayRate partner =
     (let normalTipRaw = truncNormalRate * mp_normalHours partner;
          normalTipDecimal = roundToTwoDecimals normalTipRaw;
          holidayTipRaw = truncHolidayRate * mp_holidayHours partner;
          holidayTipDecimal = roundToTwoDecimals holidayTipRaw;
          combinedDecimal = normalTipDecimal + holidayTipDecimal;
          whole = (if combinedDecimal > 0 then Math_round (combinedDecimal + eps) else 0);
          bd = breakdownBills (of_int whole)
      in \<lparr>sr_name = mp_name partner, sr_number = mp_number partner,
          sr_normalHours = mp_normalHours partner, sr_holidayHours = mp_holidayHours partner,
          sr_normalTip = normalTipDecimal, sr_holidayTip = holidayTipDecimal,
          sr_combinedDecimal = combinedDecimal, sr_wholeDollarPayout = whole,
          sr_breakdown = bd\<rparr>)"

text \<open>
  The rows are finally sorted by name with \<open>localeCompare\<close>, whose order belongs to the
  host's locale; it is a parameter \<open>le\<close> (\<open>le a b\<close> when \<open>a.localeCompare(b) \<le> 0\<close>). The sort
  is stable.
\<close>

fun insort_by :: "('a \<Rightarrow> 'a \<Rightarrow> bool) \<Rightarrow> 'a \<Rightarrow> 'a list \<Rightarrow> 'a list" where
  "insort_by le x [] = [x]"
| "insort_by le x (y # ys) = (if le x y then x # y # ys else y # insort_by le x ys)"

definition sort_by :: "('a \<Rightarrow> 'a \<Rightarrow> bool) \<Rightarrow> 'a list \<Rightarrow> 'a list" where
  "sort_by le xs = foldr (insort_by le) xs []"

definition calculateHolidaySplitTips ::
  "(string \<Rightarrow> string \<Rightarrow> bool) \<Rightarrow> report_partner list \<Rightarrow> report_partner list \<Rightarrow> real \<Rightarrow> real
     \<Rightarrow> split_result list \<times> split_summary" where
  "calculateHolidaySplitTips le normalPartners holidayPartners normalRate holidayRate =
     (let partnerMap = buildPartnerMap normalPartners holidayPartners;
          truncNormalRate = truncateToTwoDecimals normalRate;
          truncHolidayRate = truncateToTwoDecimals holidayRate;
          results = map (\<lambda>(key, partner). splitRow truncNormalRate truncHolidayRate partner)
                      partnerMap;
          tnt = sum_list (map sr_normalTip results);
          tht = sum_list (map sr_holidayTip results)
      in (sort_by (\<lambda>a b. le (sr_name a) (sr_name b)) results,
          \<lparr>totalNormalHours = sum_list (map sr_normalHours results),
           totalHolidayHours = sum_list (map sr_holidayHours results),
           totalNormalTips = tnt, totalHolidayTips = tht,
           totalCombinedTips = tnt + tht,
           totalCombinedPayout = sum_list (map sr_wholeDollarPayout results),
           normalHourlyRate = truncNormalRate, holidayHourlyRate = truncHolidayRate,
           totalBills = foldl addBills noBills (map sr_breakdown results)\<rparr>))"

subsection \<open>The automation variant: pairing the two lists with \<open>matchPartners\<close>\<close>

definition normalizeNameForMatch :: "string \<Rightarrow> string" where
  "normalizeNameForMatch name = trim (filter isLowerAZ (toLowerCase name))"

record match =
  mt_name :: string
  mt_regular :: "report_partner option"
  mt_holiday :: "report_partner option"

text \<open>
  The inner loop of \<open>matchPartners\<close> over the holiday list (each record with its index):
  skip the records already used; an equal key wins at once (\<open>break\<close>); a key that contains
  the other is a candidate when the ratio of the lengths is above 0.7 and above the best
  score so far.
\<close>

fun findBestMatch ::
  "string \<Rightarrow> nat set \<Rightarrow> (nat \<times> report_partner) list
     \<Rightarrow> (nat \<times> report_partner) option \<Rightarrow> real \<Rightarrow> (nat \<times> report_partner) option" where
  "findBestMatch norm1 usedHoliday [] bestMatch bestScore = bestMatch"
| "findBestMatch norm1 usedHoliday ((i, p2) # rest) bestMatch bestScore =
     (if i \<in> usedHoliday then findBestMatch norm1 usedHoliday rest bestMatch bestScore
      else let norm2 = normalizeNameForMatch (rp_name p2) in
        if norm1 = norm2 then Some (i, p2)
        else if str_includes norm1 norm2 \<or> str_includes norm2 norm1 then
          let score = real (min (length norm1) (length norm2))
                        / real (max (length norm1) (length norm2))
          in if score > bestScore \<and> score > 7 / 10
             then findBestMatch norm1 usedHoliday rest (Some (i, p2)) score
             else findBestMatch norm1 usedHoliday rest bestMatch bestScore
        else findBestMatch norm1 usedHoliday rest bestMatch bestScore)"

definition matchStep ::
  "report_partner list \<Rightarrow> match list \<times> nat set \<Rightarrow> report_partner \<Rightarrow> match list \<times> nat set" where
  "matchStep holidayPartnersList acc p1 =
     (let (matched, usedHoliday) = acc;
          norm1 = normalizeNameForMatch (rp_name p1)
      in case findBestMatch norm1 usedHoliday
                (zip [0 ..< length holidayPartnersList] holidayPartnersList) None 0 of
           Some (i, p2) \<Rightarrow>
             (matched @ [\<lparr>mt_name = rp_name p1, mt_regular = Some p1, mt_holiday = Some p2\<rparr>],
              insert i usedHoliday)
         | None \<Rightarrow>
             (matched @ [\<lparr>mt_name = rp_name p1, mt_regular = Some p1, mt_holiday = None\<rparr>],
              usedHoliday))"

definition matchPartners :: "report_partner list \<Rightarrow> report_partner list \<Rightarrow> match list" where
  "matchPartners regularPartnersList holidayPartnersList =
     (let (matched, usedHoliday) =
            foldl (matchStep holidayPartnersList) ([], {}) regularPartnersList
      in matched @
         map (\<lambda>(i, p2). \<lparr>mt_name = rp_name p2, mt_regular = None, mt_holiday = Some p2\<rparr>)
           (filter (\<lambda>(i, p2). i \<notin> usedHoliday)
              (zip [0 ..< length holidayPartnersList] holidayPartnersList)))"







subsection \<open>Notions used to state the properties of the merge\<close>

text \<open>
  The hours that the records with a given key contribute in one period, the hours that a
  map holds under a key, and the fuzzy criterion of \<open>matchPartners\<close>: one key contains the
  other and the ratio of the lengths is above 0.7.
\<close>

definition hoursFor :: "string \<Rightarrow> report_partner list \<Rightarrow> real" where
  "hoursFor k ps = sum_list (map rp_hours (filter (\<lambda>p. normalizeNameKey (rp_name p) = k) ps))"

definition normalHoursOf :: "(string \<times> merged_partner) list \<Rightarrow> string \<Rightarrow> real" where
  "normalHoursOf m k = (case map_of m k of None \<Rightarrow> 0 | Some e \<Rightarrow> mp_normalHours e)"

definition holidayHoursOf :: "(string \<times> merged_partner) list \<Rightarrow> string \<Rightarrow> real" where
  "holidayHoursOf m k = (case map_of m k of None \<Rightarrow> 0 | Some e \<Rightarrow> mp_holidayHours e)"

definition fuzzyMatch :: "string \<Rightarrow> string \<Rightarrow> bool" where
  "fuzzyMatch norm1 norm2 \<longleftrightarrow>
     (str_includes norm1 norm2 \<or> str_includes norm2 norm1)
     \<and> real (min (length norm1) (length norm2)) / real (max (length norm1) (length norm2))
         > 7 / 10"

text \<open>Example reports: one partner in each period, the names written differently.\<close>

definition example_normal :: "report_partner list" where
  "example_normal = [\<lparr>rp_name = ''Smith, Ann'', rp_number = ''US1'', rp_hours = 1 / 2\<rparr>]"

definition example_holiday :: "report_partner list" where
  "example_holiday = [\<lparr>rp_name = ''SMITH ANN'', rp_number = [], rp_hours = 1 / 2\<rparr>]"



text \<open>
  Example reports whose names differ by a trailing initial, so that the keys differ and
  one key contains the other.
\<close>

definition example_regular_O :: "report_partner list" where
  "example_regular_O =
     [\<lparr>rp_name = ''Ailuogwemhe, Jodie O'', rp_number = ''US37008498'', rp_hours = 922 / 100\<rparr>]"

definition example_holiday_noO :: "report_partner list" where
  "example_holiday_noO =
     [\<lparr>rp_name = ''Ailuogwemhe, Jodie'', rp_number = [], rp_hours = 4\<rparr>]"

text \<open>
  Example reports in which two regular records could take the one holiday record: the
  first has a key that contains the holiday key, the second has the holiday key itself.
\<close>

definition example_regular_Anna_Ann :: "report_partner list" where
  "example_regular_Anna_Ann =
     [\<lparr>rp_name = ''Smith, Anna'', rp_number = ''US7'', rp_hours = 5\<rparr>,
      \<lparr>rp_name = ''Smith, Ann'', rp_number = ''US1'', rp_hours = 922 / 100\<rparr>]"

section \<open>Regular expressions\<close>

text \<open>
  The regular expressions of the source are sequences of literals and of quantified
  character classes. A pattern is a list of items: a literal, a literal compared without
  regard to case (the \<open>i\<close> flag), or a class with a least and a greatest number of
  repetitions, greedy or lazy. \<open>\s*\<close> is \<open>Rep isSpace 0 None True\<close>, \<open>\d{1,2}\<close> is
  \<open>Rep isDigit 1 (Some 2) True\<close>, \<open>.+?\<close> is \<open>Rep isDot 1 None False\<close>.

  Matching follows the backtracking order of the JavaScript matcher: \<open>item_matches\<close> lists
  the ways one item can match at the start of the text, in the order in which the matcher
  tries them (longest first when greedy, shortest first when lazy), and \<open>rx_matches\<close> lists
  the matches of the whole sequence in that order, each with the text consumed by every
  item and the rest of the input. The first element of the list is the match that the
  matcher reports.
\<close>

datatype item =
    Lit string
  | LitI string
  | Rep "char \<Rightarrow> bool" nat "nat option" bool

text \<open>
  Canonicalization for the \<open>i\<close> flag. The literals of the source are ASCII, and a code
  unit of 128 or more never canonicalizes to an ASCII one, so only \<open>a .. z\<close> matter.
\<close>

definition canonicalize :: "char \<Rightarrow> char" where
  "canonicalize c = (if isLowerAZ c then char_of (code c - 32) else c)"

fun item_matches :: "item \<Rightarrow> string \<Rightarrow> (string \<times> string) list" where
  "item_matches (Lit l) s =
     (if take (length l) s = l then [(l, drop (length l) s)] else [])"
| "item_matches (LitI l) s =
     (if map canonicalize (take (length l) s) = map canonicalize l
      then [(take (length l) s, drop (length l) s)] else [])"
| "item_matches (Rep P lo hi greedy) s =
     (let run = length (takeWhile P s);
          most = (case hi of None \<Rightarrow> run | Some h \<Rightarrow> min h run);
          counts = [lo ..< Suc most]
      in map (\<lambda>k. (take k s, drop k s)) (if greedy then rev counts else counts))"

fun rx_matches :: "item list \<Rightarrow> string \<Rightarrow> (string list \<times> string) list" where
  "rx_matches [] s = [([], s)]"
| "rx_matches (it # its) s =
     concat (map (\<lambda>(c, rest). map (\<lambda>(cs, r). (c # cs, r)) (rx_matches its rest))
               (item_matches it s))"

text \<open>
  The match at the start of the text, if any; with \<open>atEnd\<close> (the pattern ends in \<open>$\<close>) only
  a match that consumes the whole text counts.
\<close>

definition rx_first :: "bool \<Rightarrow> item list \<Rightarrow> string \<Rightarrow> (string list \<times> string) option" where
  "rx_first atEnd rx s =
     (case filter (\<lambda>(cs, r). atEnd \<longrightarrow> r = []) (rx_matches rx s) of
        [] \<Rightarrow> None
      | m # _ \<Rightarrow> Some m)"

text \<open>\<open>suffixes_from\<close>: the text from every position, the positions in ascending order.\<close>

fun suffixes_from :: "string \<Rightarrow> string list" where
  "suffixes_from [] = [[]]"
| "suffixes_from (c # cs) = (c # cs) # suffixes_from cs"

text \<open>
  \<open>RegExp.prototype.test\<close>: with \<open>atStart\<close> (the pattern begins with \<open>^\<close>) the match must
  begin the text, otherwise it may begin anywhere.
\<close>

definition rx_test :: "bool \<Rightarrow> bool \<Rightarrow> item list \<Rightarrow> string \<Rightarrow> bool" where
  "rx_test atStart atEnd rx s =
     (if atStart then rx_first atEnd rx s \<noteq> None
      else list_ex (\<lambda>t. rx_first atEnd rx t \<noteq> None) (suffixes_from s))"

text \<open>
  \<open>String.prototype.replace\<close> with a global pattern and a fixed replacement. The text is
  scanned from the left; \<open>skip\<close> counts the characters of the current match that are still
  to be dropped. After a match the scan goes on behind it; after an empty match one
  character is copied.
\<close>

fun replaceAllFrom :: "item list \<Rightarrow> string \<Rightarrow> nat \<Rightarrow> string \<Rightarrow> string" where
  "replaceAllFrom rx rep (Suc k) (c # cs) = replaceAllFrom rx rep k cs"
| "replaceAllFrom rx rep (Suc k) [] = []"
| "replaceAllFrom rx rep 0 [] = (if rx_first False rx [] \<noteq> None then rep else [])"
| "replaceAllFrom rx rep 0 (c # cs) =
     (case rx_first False rx (c # cs) of
        None \<Rightarrow> c # replaceAllFrom rx rep 0 cs
      | Some (m, rest) \<Rightarrow>
          if concat m = [] then rep @ c # replaceAllFrom rx rep 0 cs
          else rep @ replaceAllFrom rx rep (length (concat m) - 1) cs)"

definition replaceAll :: "item list \<Rightarrow> string \<Rightarrow> string \<Rightarrow> string" where
  "replaceAll rx rep s = replaceAllFrom rx rep 0 s"

definition isDot :: "char \<Rightarrow> bool" where
  "isDot c \<longleftrightarrow> code c \<noteq> 10 \<and> code c \<noteq> 13"

definition notNewline :: "char \<Rightarrow> bool" where
  "notNewline c \<longleftrightarrow> code c \<noteq> 10"

text \<open>The pattern \<^verbatim>\<open>/\s+/\<close>: a run of white space.\<close>

definition whitespaceRun :: "item list" where
  "whitespaceRun = [Rep isSpace 1 None True]"

section \<open>The text normalizer\<close>

text \<open>
  \<open>METADATA_PATTERNS\<close>, in the order of the source:
  \<^verbatim>\<open>/Store\s*Number[:#]?\s*\d+/gi\<close>, \<^verbatim>\<open>/Time\s*Period:[^\n]*/gi\<close>,
  \<^verbatim>\<open>/Executed\s*By:[^\n]*/gi\<close>, \<^verbatim>\<open>/Executed\s*On:[^\n]*/gi\<close>,
  \<^verbatim>\<open>/Data\s*Disclaimer[^\n]*/gi\<close>, \<^verbatim>\<open>/Includes\s*all\s*updates[^\n]*/gi\<close>,
  \<^verbatim>\<open>/Tip\s*Distribution[^\n]*/gi\<close>, \<^verbatim>\<open>/Home\s*Store[^\n]*/gi\<close>.
\<close>

definition METADATA_PATTERNS :: "item list list" where
  "METADATA_PATTERNS =
     [[LitI ''Store'', Rep isSpace 0 None True, LitI ''Number'',
       Rep (\<lambda>c. c = CHR '':'' \<or> c = CHR ''#'') 0 (Some 1) True,
       Rep isSpace 0 None True, Rep isDigit 1 None True],
      [LitI ''Time'', Rep isSpace 0 None True, LitI ''Period:'', Rep notNewline 0 None True],
      [LitI ''Executed'', Rep isSpace 0 None True, LitI ''By:'', Rep notNewline 0 None True],
      [LitI ''Executed'', Rep isSpace 0 None True, LitI ''On:'', Rep notNewline 0 None True],
      [LitI ''Data'', Rep isSpace 0 None True, LitI ''Disclaimer'', Rep notNewline 0 None True],
      [LitI ''Includes'', Rep isSpace 0 None True, LitI ''all'', Rep isSpace 0 None True,
       LitI ''updates'', Rep notNewline 0 None True],
      [LitI ''Tip'', Rep isSpace 0 None True, LitI ''Distribution'', Rep notNewline 0 None True],
      [LitI ''Home'', Rep isSpace 0 None True, LitI ''Store'', Rep notNewline 0 None True]]"

text \<open>
  \<open>stripMetadataTokens\<close>: every pattern in turn is replaced by one space, then every run of
  white space by one space, then the text is trimmed. The empty text gives the empty text
  on the early return as on the main path.
\<close>

definition stripMetadataTokens :: "string \<Rightarrow> string" where
  "stripMetadataTokens text =
     (if text = [] then []
      else let cleaned = foldl (\<lambda>cleaned pattern. replaceAll pattern '' '' cleaned)
                           text METADATA_PATTERNS
           in trim (replaceAll whitespaceRun '' '' cleaned))"

text \<open>
  A text is whitespace-normal when each of its white-space characters is a space that is
  not followed by another white-space character.
\<close>

fun spacesSingle :: "string \<Rightarrow> bool" where
  "spacesSingle [] = True"
| "spacesSingle (c # cs) =
     ((isSpace c \<longrightarrow> c = CHR '' '' \<and> (cs = [] \<or> \<not> isSpace (hd cs))) \<and> spacesSingle cs)"

text \<open>Example texts for the normalizer.\<close>

definition example_report_text :: string where
  "example_report_text =
     ''Store Number: 69600'' @ [CHR 0x0A] @ ''Time Period: 08/01/2025 - 08/07/2025''
       @ [CHR 0x0A] @ ''Smith, Ann  US123 9.22''"

definition example_split_header_text :: string where
  "example_split_header_text =
     ''Store'' @ [CHR 0x0A] @ ''Time Period: 08/01/2025'' @ [CHR 0x0A] @ ''Number 69600''"

section \<open>The record extractor\<close>

text \<open>
  Extraction returns partner records \<open>{name, number, hours}\<close>; they are \<open>report_partner\<close>
  records here. The functions are those of the variant of the main script that has the
  columnar parser and the line patterns.
\<close>

subsection \<open>String helpers\<close>

text \<open>\<open>text.split(/\r?\n/)\<close>: the lines of a text.\<close>

fun splitLinesAcc :: "string \<Rightarrow> string \<Rightarrow> string list" where
  "splitLinesAcc acc [] = [rev acc]"
| "splitLinesAcc acc [c] =
     (if c = CHR 0x0A then [rev acc, []] else [rev (c # acc)])"
| "splitLinesAcc acc (c # d # cs) =
     (if c = CHR 0x0A then rev acc # splitLinesAcc [] (d # cs)
      else if c = CHR 0x0D \<and> d = CHR 0x0A then rev acc # splitLinesAcc [] cs
      else splitLinesAcc (c # acc) (d # cs))"

definition splitLines :: "string \<Rightarrow> string list" where
  "splitLines s = splitLinesAcc [] s"

text \<open>
  \<open>text.split(/\s+/)\<close>: the pieces between the runs of white space; a text that begins or
  ends with white space has an empty first or last piece.
\<close>

fun splitWsAcc :: "bool \<Rightarrow> string \<Rightarrow> string \<Rightarrow> string list" where
  "splitWsAcc inSep acc [] = [rev acc]"
| "splitWsAcc inSep acc (c # cs) =
     (if isSpace c
      then (if inSep then splitWsAcc True acc cs else rev acc # splitWsAcc True [] cs)
      else splitWsAcc False (c # acc) cs)"

definition splitWs :: "string \<Rightarrow> string list" where
  "splitWs s = splitWsAcc False [] s"

text \<open>\<open>tokens.join(" ")\<close>.\<close>

fun joinSpace :: "string list \<Rightarrow> string" where
  "joinSpace [] = []"
| "joinSpace [t] = t"
| "joinSpace (t # u # ts) = t @ '' '' @ joinSpace (u # ts)"

text \<open>
  \<open>parseFloat\<close> on an unsigned decimal text: digits, optionally a point and digits. The
  call sites of the model pass texts that a pattern has validated as such; for a text
  that does not begin with a digit or a point followed by a digit the result is \<open>NaN\<close>
  (\<open>None\<close>). Signs and exponents are not modelled. The value is the exact decimal: the
  rounding of the source to the nearest double is left out, so a text with more digits
  than a double holds, such as \<open>199.99999999999999999\<close>, is read as itself here and as
  \<open>200\<close> by the source.
\<close>

definition digitValue :: "char \<Rightarrow> real" where
  "digitValue c =
     (case map_of (zip ''0123456789'' [0, 1, 2, 3, 4, 5, 6, 7, 8, 9]) c of
        Some d \<Rightarrow> d
      | None \<Rightarrow> 0)"

definition digitsValue :: "string \<Rightarrow> real" where
  "digitsValue ds = foldl (\<lambda>n c. 10 * n + digitValue c) 0 ds"

definition parseFloat :: "string \<Rightarrow> real option" where
  "parseFloat s =
     (let ip = takeWhile isDigit s;
          rest = dropWhile isDigit s;
          fp = (case rest of
                  [] \<Rightarrow> []
                | c # cs \<Rightarrow> if c = CHR ''.'' then takeWhile isDigit cs else [])
      in if ip = [] \<and> fp = [] then None
         else Some (digitsValue ip + digitsValue fp / 10 ^ length fp))"

subsection \<open>Patterns\<close>

definition isPoint :: "char \<Rightarrow> bool" where
  "isPoint c \<longleftrightarrow> c = CHR ''.''"

definition isDigitOrPoint :: "char \<Rightarrow> bool" where
  "isDigitOrPoint c \<longleftrightarrow> isDigit c \<or> c = CHR ''.''"

text \<open>\<^verbatim>\<open>/^\d{5}$/\<close>, \<^verbatim>\<open>/^\d+$/\<close>, \<^verbatim>\<open>/^US\d+$/i\<close>, \<^verbatim>\<open>/^\d{6,}$/\<close>, \<^verbatim>\<open>/^\d+\.?\d*$/\<close>, \<^verbatim>\<open>/^\d+\.\d+$/\<close>.\<close>

definition isFiveDigits :: "string \<Rightarrow> bool" where
  "isFiveDigits s = rx_test True True [Rep isDigit 5 (Some 5) True] s"

definition isAllDigits :: "string \<Rightarrow> bool" where
  "isAllDigits s = rx_test True True [Rep isDigit 1 None True] s"

definition isUsNumber :: "string \<Rightarrow> bool" where
  "isUsNumber s = rx_test True True [LitI ''US'', Rep isDigit 1 None True] s"

definition isSixPlusDigits :: "string \<Rightarrow> bool" where
  "isSixPlusDigits s = rx_test True True [Rep isDigit 6 None True] s"

definition isDecimal :: "string \<Rightarrow> bool" where
  "isDecimal s =
     rx_test True True [Rep isDigit 1 None True, Rep isPoint 0 (Some 1) True,
                        Rep isDigit 0 None True] s"

definition isDecimalWithFraction :: "string \<Rightarrow> bool" where
  "isDecimalWithFraction s =
     rx_test True True [Rep isDigit 1 None True, Lit ''.'', Rep isDigit 1 None True] s"

text \<open>
  \<open>headerPatterns\<close> of \<open>parseColumnarFormat\<close>, all anchored at both ends:
  \<^verbatim>\<open>/^home$/i\<close>, \<^verbatim>\<open>/^partner\s*name$/i\<close>, \<^verbatim>\<open>/^partner\s*number$/i\<close>,
  \<^verbatim>\<open>/^total\s*tippable\s*hours$/i\<close>, \<^verbatim>\<open>/^store$/i\<close>, \<^verbatim>\<open>/^total\s*tippable\s*hours:$/i\<close>;
  and \<open>summaryPattern\<close>, \<^verbatim>\<open>/^total\s*tippable\s*hours:\s*[\d.]+$/i\<close>.
\<close>

definition headerPatterns :: "item list list" where
  "headerPatterns =
     [[LitI ''home''],
      [LitI ''partner'', Rep isSpace 0 None True, LitI ''name''],
      [LitI ''partner'', Rep isSpace 0 None True, LitI ''number''],
      [LitI ''total'', Rep isSpace 0 None True, LitI ''tippable'', Rep isSpace 0 None True,
       LitI ''hours''],
      [LitI ''store''],
      [LitI ''total'', Rep isSpace 0 None True, LitI ''tippable'', Rep isSpace 0 None True,
       LitI ''hours:'']]"

definition isHeaderLine :: "string \<Rightarrow> bool" where
  "isHeaderLine line = list_ex (\<lambda>p. rx_test True True p line) headerPatterns"

definition isSummaryLine :: "string \<Rightarrow> bool" where
  "isSummaryLine line =
     rx_test True True
       [LitI ''total'', Rep isSpace 0 None True, LitI ''tippable'', Rep isSpace 0 None True,
        LitI ''hours:'', Rep isSpace 0 None True, Rep isDigitOrPoint 1 None True] line"

text \<open>
  \<open>skipPatterns\<close> of \<open>parseOcrToPartners\<close>, each with its anchors (start, end):
  \<^verbatim>\<open>/partner\s*name/i\<close>, \<^verbatim>\<open>/home\s*store/i\<close>, \<^verbatim>\<open>/tippable.*hours/i\<close>,
  \<^verbatim>\<open>/total\s*tippable/i\<close>, \<^verbatim>\<open>/time\s*period/i\<close>, \<^verbatim>\<open>/executed/i\<close>, \<^verbatim>\<open>/store\s*number/i\<close>,
  \<^verbatim>\<open>/data\s*disclaimer/i\<close>, \<^verbatim>\<open>/tip\s*distribution/i\<close>, \<^verbatim>\<open>/^\s*total\s*$/i\<close>,
  \<^verbatim>\<open>/includes\s*all\s*updates/i\<close>, \<^verbatim>\<open>/^\d{1,2}\/\d{1,2}\/\d{2,4}/\<close>,
  \<^verbatim>\<open>/\d{1,2}\/\d{1,2}\/\d{2,4}\s*-\s*\d{1,2}\/\d{1,2}\/\d{2,4}/\<close>, \<^verbatim>\<open>/\d{2}:\d{2}:\d{2}/\<close>.
\<close>

definition datePattern :: "item list" where
  "datePattern =
     [Rep isDigit 1 (Some 2) True, Lit ''/'', Rep isDigit 1 (Some 2) True, Lit ''/'',
      Rep isDigit 2 (Some 4) True]"

definition skipPatterns :: "(bool \<times> bool \<times> item list) list" where
  "skipPatterns =
     [(False, False, [LitI ''partner'', Rep isSpace 0 None True, LitI ''name'']),
      (False, False, [LitI ''home'', Rep isSpace 0 None True, LitI ''store'']),
      (False, False, [LitI ''tippable'', Rep isDot 0 None True, LitI ''hours'']),
      (False, False, [LitI ''total'', Rep isSpace 0 None True, LitI ''tippable'']),
      (False, False, [LitI ''time'', Rep isSpace 0 None True, LitI ''period'']),
      (False, False, [LitI ''executed'']),
      (False, False, [LitI ''store'', Rep isSpace 0 None True, LitI ''number'']),
      (False, False, [LitI ''data'', Rep isSpace 0 None True, LitI ''disclaimer'']),
      (False, False, [LitI ''tip'', Rep isSpace 0 None True, LitI ''distribution'']),
      (True, True, [Rep isSpace 0 None True, LitI ''total'', Rep isSpace 0 None True]),
      (False, False, [LitI ''includes'', Rep isSpace 0 None True, LitI ''all'',
                      Rep isSpace 0 None True, LitI ''updates'']),
      (True, False, datePattern),
      (False, False, datePattern @ [Rep isSpace 0 None True, Lit ''-'', Rep isSpace 0 None True]
                       @ datePattern),
      (False, False, [Rep isDigit 2 (Some 2) True, Lit '':'', Rep isDigit 2 (Some 2) True,
                      Lit '':'', Rep isDigit 2 (Some 2) True])]"

definition shouldSkip :: "string \<Rightarrow> bool" where
  "shouldSkip line = list_ex (\<lambda>(atStart, atEnd, p). rx_test atStart atEnd p line) skipPatterns"

text \<open>\<^verbatim>\<open>/(executed|time period|store number|data disclaimer)/i\<close>.\<close>

definition mentionsMetadata :: "string \<Rightarrow> bool" where
  "mentionsMetadata line =
     list_ex (\<lambda>l. rx_test False False [LitI l] line)
       [''executed'', ''time period'', ''store number'', ''data disclaimer'']"

definition metadataTokens :: "string list" where
  "metadataTokens =
     [''store'', ''number'', ''time'', ''period'', ''executed'', ''by'', ''on'', ''data'',
      ''disclaimer'', ''includes'', ''all'', ''updates'', ''tip'', ''distribution'',
      ''home'', ''partner'', ''name'', ''tippable'', ''hours'', ''total'']"

subsection \<open>The columnar parser\<close>

text \<open>
  A partner number line and an hours line, as both group shapes of \<open>parseColumnarFormat\<close>
  check them.
\<close>

definition isValidPartnerNum :: "string \<Rightarrow> bool" where
  "isValidPartnerNum s \<longleftrightarrow> isUsNumber s \<or> isSixPlusDigits s"

definition hoursInRange :: "real option \<Rightarrow> bool" where
  "hoursInRange h = (case h of None \<Rightarrow> False | Some x \<Rightarrow> x > 0 \<and> x < 200)"

text \<open>
  The \<open>while\<close> loop of \<open>parseColumnarFormat\<close> over the lines from the current index on. It
  stops at a summary line, skips header lines, accepts a group of four lines (store
  number, name, partner number, hours) or of three (name, partner number, hours) and goes
  on behind the group, and otherwise moves one line on. A group of four with a valid
  shape whose hours are out of range is skipped as a whole.
\<close>

function columnarLoop :: "string list \<Rightarrow> report_partner list" where
  "columnarLoop [] = []"
| "columnarLoop (line # rest) =
     (if isSummaryLine line then []
      else if isHeaderLine line then columnarLoop rest
      else
        let four =
              (if isFiveDigits line \<and> 3 \<le> length rest then
                 let nameLine = rest ! 0; partnerNumLine = rest ! 1; hoursLine = rest ! 2;
                     isValidName = (nameLine \<noteq> [] \<and> length nameLine > 1
                        \<and> \<not> isAllDigits nameLine \<and> \<not> isUsNumber nameLine
                        \<and> \<not> isHeaderLine nameLine)
                 in if isValidName \<and> isValidPartnerNum partnerNumLine \<and> isDecimal hoursLine
                    then Some (if hoursInRange (parseFloat hoursLine)
                               then [\<lparr>rp_name = trim nameLine, rp_number = partnerNumLine,
                                      rp_hours = the (parseFloat hoursLine)\<rparr>]
                               else [])
                    else None
               else None)
        in case four of
             Some es \<Rightarrow> es @ columnarLoop (drop 3 rest)
           | None \<Rightarrow>
               let isName = (length line > 2 \<and> \<not> isDecimal line \<and> \<not> isUsNumber line
                               \<and> \<not> isFiveDigits line \<and> \<not> isHeaderLine line
                               \<and> \<not> isSummaryLine line)
               in if isName \<and> 2 \<le> length rest
                       \<and> isValidPartnerNum (rest ! 0) \<and> isDecimal (rest ! 1)
                       \<and> hoursInRange (parseFloat (rest ! 1))
                  then \<lparr>rp_name = trim line, rp_number = rest ! 0,
                        rp_hours = the (parseFloat (rest ! 1))\<rparr> # columnarLoop (drop 2 rest)
                  else columnarLoop rest)"
  by pat_completeness auto
termination
  by (relation "measure length") auto

declare columnarLoop.simps [simp del]

text \<open>
  \<open>parseColumnarFormat\<close>: the trimmed non-empty lines; the data starts at the first line
  that is a five-digit store number and no header, or at the first line when there is no
  such line.
\<close>

definition parseColumnarFormat :: "string \<Rightarrow> report_partner list" where
  "parseColumnarFormat text =
     (if text = [] then []
      else let lines = filter (\<lambda>l. length l > 0) (map trim (splitLines text));
               isStart = (\<lambda>l. \<not> isHeaderLine l \<and> isFiveDigits l);
               fromStart = (if list_ex isStart lines
                            then dropWhile (\<lambda>l. \<not> isStart l) lines else lines)
           in columnarLoop fromStart)"

subsection \<open>The token-bucket fallback\<close>

record bucket =
  nameTokens :: "string list"
  bk_number :: string

text \<open>
  The loop of \<open>parseByTokenBuckets\<close> over the tokens, with the current bucket. A token
  that is a decimal with a fraction and a value in range closes the bucket.
\<close>

fun bucketLoop :: "string list \<Rightarrow> bucket \<Rightarrow> string list \<Rightarrow> report_partner list" where
  "bucketLoop tokensToSkip cur [] = []"
| "bucketLoop tokensToSkip cur (token # tokens) =
     (let cleanedToken = filter isLowerAZ (toLowerCase token) in
      if cleanedToken \<in> set tokensToSkip then bucketLoop tokensToSkip cur tokens
      else if isUsNumber token \<or> isSixPlusDigits token
        then bucketLoop tokensToSkip (cur\<lparr>bk_number := token\<rparr>) tokens
      else if isDecimalWithFraction token \<and> hoursInRange (parseFloat token)
        then (let name = trim (joinSpace (nameTokens cur))
              in if nameTokens cur \<noteq> [] \<and> name \<noteq> [] \<and> length name > 1 \<and> \<not> isAllDigits name
                 then [\<lparr>rp_name = name, rp_number = bk_number cur,
                        rp_hours = the (parseFloat token)\<rparr>]
                 else [])
             @ bucketLoop tokensToSkip \<lparr>nameTokens = [], bk_number = []\<rparr> tokens
      else if isFiveDigits token then bucketLoop tokensToSkip cur tokens
      else if length token > 0 \<and> \<not> isAllDigits token
        then bucketLoop tokensToSkip (cur\<lparr>nameTokens := nameTokens cur @ [token]\<rparr>) tokens
      else bucketLoop tokensToSkip cur tokens)"

definition parseByTokenBuckets :: "string \<Rightarrow> string list \<Rightarrow> report_partner list" where
  "parseByTokenBuckets text tokensToSkip =
     (if text = [] then []
      else bucketLoop tokensToSkip \<lparr>nameTokens = [], bk_number = []\<rparr> (splitWs text))"

subsection \<open>The line patterns\<close>

text \<open>
  \<open>addEntry\<close>: an entry whose name has fewer than two characters is dropped, and so is an
  entry whose name, trimmed and lower-cased, is already in the list.
\<close>

definition addEntry :: "report_partner list \<Rightarrow> report_partner \<Rightarrow> report_partner list" where
  "addEntry parsed entry =
     (if length (rp_name entry) < 2 then parsed
      else if list_ex (\<lambda>p. trim (toLowerCase (rp_name p)) = trim (toLowerCase (rp_name entry)))
                parsed
      then parsed
      else parsed @ [entry])"

text \<open>
  The five shapes tried on a cleaned line, in order. Each gives the entry to add, or
  \<open>None\<close> when the shape does not apply; the first that applies wins.
  Patterns 1 to 3 check only that the hours are a finite number.

  Pattern 1 is \<^verbatim>\<open>/^(\d{5})\s+(.+?)\s+(US\d+)\s+(\d+\.?\d*)$/i\<close>, pattern 2 is
  \<^verbatim>\<open>/^(.+?)\s+(US\d+)\s+(\d+\.?\d*)$/i\<close>, pattern 3 is \<^verbatim>\<open>/^(.+?)\s+(\d{6,})\s+(\d+\.?\d*)$/\<close>,
  pattern 4 is \<^verbatim>\<open>/^(.+?)\s+(\d+\.\d+)$/\<close>.
\<close>

definition pattern1 :: "string \<Rightarrow> report_partner option" where
  "pattern1 cleanedLine =
     (case rx_first True
             [Rep isDigit 5 (Some 5) True, Rep isSpace 1 None True, Rep isDot 1 None False,
              Rep isSpace 1 None True, LitI ''US'', Rep isDigit 1 None True,
              Rep isSpace 1 None True, Rep isDigit 1 None True, Rep isPoint 0 (Some 1) True,
              Rep isDigit 0 None True] cleanedLine of
        Some ([m1, s1, m2, s2, us, ds, s3, h1, h2, h3], r) \<Rightarrow>
          (case parseFloat (h1 @ h2 @ h3) of
             Some h \<Rightarrow> if trim m2 \<noteq> []
                       then Some \<lparr>rp_name = trim m2, rp_number = us @ ds, rp_hours = h\<rparr>
                       else None
           | None \<Rightarrow> None)
      | _ \<Rightarrow> None)"

definition pattern2 :: "string \<Rightarrow> report_partner option" where
  "pattern2 cleanedLine =
     (case rx_first True
             [Rep isDot 1 None False, Rep isSpace 1 None True, LitI ''US'',
              Rep isDigit 1 None True, Rep isSpace 1 None True, Rep isDigit 1 None True,
              Rep isPoint 0 (Some 1) True, Rep isDigit 0 None True] cleanedLine of
        Some ([m1, s1, us, ds, s2, h1, h2, h3], r) \<Rightarrow>
          (case parseFloat (h1 @ h2 @ h3) of
             Some h \<Rightarrow> if trim m1 \<noteq> [] \<and> \<not> isFiveDigits (trim m1)
                       then Some \<lparr>rp_name = trim m1, rp_number = us @ ds, rp_hours = h\<rparr>
                       else None
           | None \<Rightarrow> None)
      | _ \<Rightarrow> None)"

definition pattern3 :: "string \<Rightarrow> report_partner option" where
  "pattern3 cleanedLine =
     (case rx_first True
             [Rep isDot 1 None False, Rep isSpace 1 None True, Rep isDigit 6 None True,
              Rep isSpace 1 None True, Rep isDigit 1 None True,
              Rep isPoint 0 (Some 1) True, Rep isDigit 0 None True] cleanedLine of
        Some ([m1, s1, ds, s2, h1, h2, h3], r) \<Rightarrow>
          (case parseFloat (h1 @ h2 @ h3) of
             Some h \<Rightarrow> if trim m1 \<noteq> []
                       then Some \<lparr>rp_name = trim m1, rp_number = ds, rp_hours = h\<rparr>
                       else None
           | None \<Rightarrow> None)
      | _ \<Rightarrow> None)"

definition pattern4 :: "string \<Rightarrow> report_partner option" where
  "pattern4 cleanedLine =
     (case rx_first True
             [Rep isDot 1 None False, Rep isSpace 1 None True, Rep isDigit 1 None True,
              Lit ''.'', Rep isDigit 1 None True] cleanedLine of
        Some ([m1, s1, h1, h2, h3], r) \<Rightarrow>
          (let nameCandidate = trim m1; hours = parseFloat (h1 @ h2 @ h3)
           in if nameCandidate \<noteq> [] \<and> \<not> isAllDigits nameCandidate \<and> hoursInRange hours
              then Some \<lparr>rp_name = nameCandidate, rp_number = [], rp_hours = the hours\<rparr>
              else None)
      | _ \<Rightarrow> None)"

text \<open>
  Pattern 5, the flexible tokenizer: the last token is the hours, a last name token of
  partner-number shape is the number, a leading five-digit token is dropped.
  \<open>pattern5Name\<close> is the part that turns the tokens before the hours into the name tokens
  and the partner number.
\<close>

definition pattern5Name :: "string list \<Rightarrow> string list \<times> string" where
  "pattern5Name tokens =
     (let nameTokens0 =
            filter (\<lambda>tok. let cleaned = filter isLowerAZ (toLowerCase tok)
                          in if cleaned \<noteq> [] then cleaned \<notin> set metadataTokens else True)
              (butlast tokens);
          hasNumber = (nameTokens0 \<noteq> []
              \<and> (isUsNumber (last nameTokens0) \<or> isSixPlusDigits (last nameTokens0)));
          number = (if hasNumber then last nameTokens0 else []);
          nameTokens1 = (if hasNumber then butlast nameTokens0 else nameTokens0);
          nameTokens2 = (if nameTokens1 \<noteq> [] \<and> isFiveDigits (hd nameTokens1)
                         then tl nameTokens1 else nameTokens1)
      in (nameTokens2, number))"

definition pattern5 :: "string \<Rightarrow> report_partner option" where
  "pattern5 cleanedLine =
     (let tokens = splitWs cleanedLine in
      if length tokens \<ge> 2 \<and> isDecimal (last tokens) \<and> hoursInRange (parseFloat (last tokens))
      then
        case pattern5Name tokens of (names, number) \<Rightarrow>
          let name = trim (joinSpace names)
          in if name \<noteq> [] \<and> length name > 1 \<and> length names \<le> 6 \<and> \<not> isAllDigits name
             then Some \<lparr>rp_name = name, rp_number = number,
                        rp_hours = the (parseFloat (last tokens))\<rparr>
             else None
      else None)"

text \<open>
  The body of the loop over the lines: the line is trimmed; empty and short lines, lines
  that match a skip pattern and long lines that mention metadata are passed over; the
  rest is cleaned once more and tried against the five patterns.
\<close>

definition parseLine :: "report_partner list \<Rightarrow> string \<Rightarrow> report_partner list" where
  "parseLine parsed rawLine =
     (let line = trim rawLine in
      if line = [] \<or> length line < 3 then parsed
      else if shouldSkip line then parsed
      else if length line > 120 \<and> mentionsMetadata line then parsed
      else let cleanedLine = stripMetadataTokens line in
        if cleanedLine = [] \<or> length cleanedLine < 3 then parsed
        else case pattern1 cleanedLine of Some e \<Rightarrow> addEntry parsed e | None \<Rightarrow>
             (case pattern2 cleanedLine of Some e \<Rightarrow> addEntry parsed e | None \<Rightarrow>
             (case pattern3 cleanedLine of Some e \<Rightarrow> addEntry parsed e | None \<Rightarrow>
             (case pattern4 cleanedLine of Some e \<Rightarrow> addEntry parsed e | None \<Rightarrow>
             (case pattern5 cleanedLine of Some e \<Rightarrow> addEntry parsed e | None \<Rightarrow> parsed)))))"

text \<open>
  \<open>parseOcrToPartners\<close>: the columnar parser first; when it finds nothing, the line
  patterns on the normalized text; when they find nothing, the token buckets.
\<close>

definition parseOcrToPartners :: "string \<Rightarrow> report_partner list" where
  "parseOcrToPartners text =
     (let columnarResult = parseColumnarFormat text in
      if columnarResult \<noteq> [] then columnarResult
      else let metadataStrip = stripMetadataTokens text;
               parsed = foldl parseLine [] (splitLines metadataStrip)
           in if parsed = []
              then foldl addEntry parsed (parseByTokenBuckets metadataStrip metadataTokens)
              else parsed)"

subsection \<open>The hours and the validity check of the table path\<close>

text \<open>
  \<open>parseHoursValue\<close>: everything but digits, points and minus signs is deleted, the rest
  is read with \<open>parseFloat\<close>; a value that is not finite or outside \<open>[0, 200)\<close> gives 0.
  A text that begins with a minus sign reads as a negative number, as \<open>NaN\<close> or as
  minus zero, and the function returns 0 in each case, as it does here, where such a text
  reads as \<open>NaN\<close>.
\<close>

definition parseHoursValue :: "string \<Rightarrow> real" where
  "parseHoursValue hoursStr =
     (if hoursStr = [] then 0
      else let cleaned = filter (\<lambda>c. isDigit c \<or> c = CHR ''.'' \<or> c = CHR ''-'') hoursStr
           in case parseFloat cleaned of
                Some hours \<Rightarrow> if hours \<ge> 0 \<and> hours < 200 then hours else 0
              | None \<Rightarrow> 0)"

definition isDateSeparator :: "char \<Rightarrow> bool" where
  "isDateSeparator c \<longleftrightarrow> c = CHR ''/'' \<or> c = CHR ''-''"

text \<open>
  The class of prefix symbols of the source: white space, \<open>~ = - * > | :\<close>, the middle
  dot (183), the right guillemet (187), and a bullet and an arrow that lie above 255 and
  so outside the code units of the model.
\<close>

definition isPrefixSymbol :: "char \<Rightarrow> bool" where
  "isPrefixSymbol c \<longleftrightarrow>
     isSpace c \<or> c \<in> set ''~=-*>|:'' \<or> c = CHR 0xB7 \<or> c = CHR 0xBB"

definition dateSlashOrDash :: "item list" where
  "dateSlashOrDash =
     [Rep isDigit 1 (Some 2) True, Rep isDateSeparator 1 (Some 1) True,
      Rep isDigit 1 (Some 2) True, Rep isDateSeparator 1 (Some 1) True,
      Rep isDigit 2 (Some 4) True]"

text \<open>
  \<open>isValidPartnerEntry\<close>: the name must not look like a header, a footer, a number, a date,
  a date range or a row of symbols, and the hours must be greater than 0. The dash of a
  date range may be a hyphen, an en dash or an em dash in the source; the two long dashes
  lie above 255, so the hyphen remains.
\<close>

definition isValidPartnerEntry :: "report_partner \<Rightarrow> bool" where
  "isValidPartnerEntry partner =
     (let name = rp_name partner; nameLower = toLowerCase name; nameTrimmed = trim name in
      if name = [] then False
      else if str_includes nameLower ''partner name'' \<or> str_includes nameLower ''employee name''
              \<or> nameLower = ''name'' then False
      else if str_includes nameLower ''total tippable'' \<or> str_includes nameLower ''total:''
              \<or> nameLower = ''total'' \<or> str_includes nameLower ''grand total'' then False
      else if length nameTrimmed < 2 then False
      else if isAllDigits nameTrimmed then False
      else if rx_test True True dateSlashOrDash nameTrimmed
              \<or> rx_test True True
                   [Rep isDigit 4 (Some 4) True, Rep isDateSeparator 1 (Some 1) True,
                    Rep isDigit 1 (Some 2) True, Rep isDateSeparator 1 (Some 1) True,
                    Rep isDigit 1 (Some 2) True] nameTrimmed then False
      else if rx_test False False
                (dateSlashOrDash @ [Rep isSpace 0 None True, Lit ''-'', Rep isSpace 0 None True]
                   @ dateSlashOrDash) nameTrimmed then False
      else if rx_test True True [Rep isPrefixSymbol 1 None True] nameTrimmed then False
      else if rp_hours partner = 0 \<or> rp_hours partner \<le> 0 then False
      else True)"

text \<open>The bound that the extraction paths with a range check enforce on the hours.\<close>

definition hoursAccepted :: "report_partner \<Rightarrow> bool" where
  "hoursAccepted e \<longleftrightarrow> 0 < rp_hours e \<and> rp_hours e < 200"

section \<open>Character classes on character literals\<close>

text \<open>
  The classes are defined through the code of a character. On a character given by its
  eight bits they are decided by the bits; these equations serve the evaluation of the
  model on concrete texts.
\<close>

lemma code_Char:
  "code (Char b0 b1 b2 b3 b4 b5 b6 b7) =
     of_bool b0 + 2 * of_bool b1 + 4 * of_bool b2 + 8 * of_bool b3 + 16 * of_bool b4
     + 32 * of_bool b5 + 64 * of_bool b6 + 128 * of_bool b7"
  by (simp add: code_def)

lemma isLowerAZ_Char [code]:
  "isLowerAZ (Char b0 b1 b2 b3 b4 b5 b6 b7) \<longleftrightarrow>
     b5 \<and> b6 \<and> \<not> b7 \<and> (b0 \<or> b1 \<or> b2 \<or> b3 \<or> b4) \<and> \<not> (b3 \<and> b4 \<and> (b2 \<or> (b0 \<and> b1)))"
  unfolding isLowerAZ_def code_Char
  by (cases b0; cases b1; cases b2; cases b3; cases b4; cases b5; cases b6; cases b7; simp)

lemma isUpperAZ_Char [code]:
  "isUpperAZ (Char b0 b1 b2 b3 b4 b5 b6 b7) \<longleftrightarrow>
     \<not> b5 \<and> b6 \<and> \<not> b7 \<and> (b0 \<or> b1 \<or> b2 \<or> b3 \<or> b4) \<and> \<not> (b3 \<and> b4 \<and> (b2 \<or> (b0 \<and> b1)))"
  unfolding isUpperAZ_def code_Char
  by (cases b0; cases b1; cases b2; cases b3; cases b4; cases b5; cases b6; cases b7; simp)

lemma isDigit_Char [code]:
  "isDigit (Char b0 b1 b2 b3 b4 b5 b6 b7) \<longleftrightarrow>
     b4 \<and> b5 \<and> \<not> b6 \<and> \<not> b7 \<and> \<not> (b3 \<and> (b1 \<or> b2))"
  unfolding isDigit_def code_Char
  by (cases b0; cases b1; cases b2; cases b3; cases b4; cases b5; cases b6; cases b7; simp)

lemma isSpace_Char [code]:
  "isSpace (Char b0 b1 b2 b3 b4 b5 b6 b7) \<longleftrightarrow>
     (\<not> b7 \<and> \<not> b6 \<and> \<not> b5 \<and> \<not> b4 \<and> b3 \<and> ((\<not> b2 \<and> (b0 \<or> b1)) \<or> (b2 \<and> \<not> b1)))
     \<or> (b5 \<and> \<not> b6 \<and> \<not> b4 \<and> \<not> b3 \<and> \<not> b2 \<and> \<not> b1 \<and> \<not> b0)"
  unfolding isSpace_def code_Char
  by (cases b0; cases b1; cases b2; cases b3; cases b4; cases b5; cases b6; cases b7; simp)

lemma canonicalize_Char [code]:
  "canonicalize (Char b0 b1 b2 b3 b4 b5 b6 b7) =
     (if isLowerAZ (Char b0 b1 b2 b3 b4 b5 b6 b7) then Char b0 b1 b2 b3 b4 False b6 b7
      else Char b0 b1 b2 b3 b4 b5 b6 b7)"
  unfolding canonicalize_def isLowerAZ_Char
  by (cases b0; cases b1; cases b2; cases b3; cases b4; cases b5; cases b6; cases b7;
      simp add: code_Char char_of_def bit_Suc_0_iff)

lemma toLowerChar_Char [code]:
  "toLowerChar (Char b0 b1 b2 b3 b4 b5 b6 b7) =
     (if isUpperAZ (Char b0 b1 b2 b3 b4 b5 b6 b7)
         \<or> (b7 \<and> b6 \<and> \<not> b5 \<and> \<not> (b0 \<and> b1 \<and> b2 \<and> b3 \<and> b4) \<and> \<not> (b0 \<and> b1 \<and> b2 \<and> \<not> b3 \<and> b4))
      then Char b0 b1 b2 b3 b4 True b6 b7
      else Char b0 b1 b2 b3 b4 b5 b6 b7)"
  unfolding toLowerChar_def isUpperAZ_Char
  by (cases b0; cases b1; cases b2; cases b3; cases b4; cases b5; cases b6; cases b7;
      simp add: code_Char char_of_def bit_Suc_0_iff)

lemma isDot_Char [code]:
  "isDot (Char b0 b1 b2 b3 b4 b5 b6 b7) \<longleftrightarrow>
     \<not> (\<not> b7 \<and> \<not> b6 \<and> \<not> b5 \<and> \<not> b4 \<and> b3 \<and> ((\<not> b2 \<and> b1 \<and> \<not> b0) \<or> (b2 \<and> \<not> b1 \<and> b0)))"
  unfolding isDot_def code_Char
  by (cases b0; cases b1; cases b2; cases b3; cases b4; cases b5; cases b6; cases b7; simp)

lemma notNewline_Char [code]:
  "notNewline (Char b0 b1 b2 b3 b4 b5 b6 b7) \<longleftrightarrow>
     \<not> (\<not> b7 \<and> \<not> b6 \<and> \<not> b5 \<and> \<not> b4 \<and> b3 \<and> \<not> b2 \<and> b1 \<and> \<not> b0)"
  unfolding notNewline_def code_Char
  by (cases b0; cases b1; cases b2; cases b3; cases b4; cases b5; cases b6; cases b7; simp)

section \<open>Properties of the rounding of double operations\<close>

text \<open>
  \<open>pow2 e\<close> is \<open>2\<close> to the power \<open>e\<close>, and \<open>exponent x\<close> is the binary exponent of \<open>x\<close>.
\<close>

lemma pow2_powr: "pow2 e = 2 powr of_int e"
proof (cases "0 \<le> e")
  case True
  then show ?thesis by (simp add: pow2_def powr_realpow [symmetric])
next
  case False
  then have e: "real_of_int e = - real (nat (- e))" by simp
  have "2 powr (- real (nat (- e))) = 1 / 2 ^ nat (- e)"
    by (simp only: powr_minus_divide powr_realpow zero_less_numeral)
  then show ?thesis using False unfolding e by (simp add: pow2_def)
qed

lemma pow2_pos: "0 < pow2 e"
  by (simp add: pow2_powr)

lemma pow2_add: "pow2 (a + b) = pow2 a * pow2 b"
  by (simp add: pow2_powr powr_add)

lemma pow2_less_iff: "pow2 a < pow2 b \<longleftrightarrow> a < b"
  by (simp add: pow2_powr)

lemma pow2_mono: "a \<le> b \<Longrightarrow> pow2 a \<le> pow2 b"
  by (simp add: pow2_powr)

lemma real_pow2_le:
  fixes m :: int
  assumes "2 ^ n \<le> m"
  shows "(2::real) ^ n \<le> of_int m"
proof -
  have "(of_int (2 ^ n) :: real) \<le> of_int m" using assms by (simp only: of_int_le_iff)
  then show ?thesis by (simp only: of_int_power of_int_numeral)
qed

lemma real_succ_le_pow2:
  fixes m :: int
  assumes "m < 2 ^ n"
  shows "of_int m + 1 \<le> (2::real) ^ n"
proof -
  from assms have "m + 1 \<le> 2 ^ n" by simp
  then have "(of_int (m + 1) :: real) \<le> of_int (2 ^ n)" by (simp only: of_int_le_iff)
  then show ?thesis by (simp only: of_int_power of_int_numeral of_int_add of_int_1)
qed

lemma exponent_bounds:
  assumes "x \<noteq> 0"
  shows "pow2 (exponent x) \<le> \<bar>x\<bar> \<and> \<bar>x\<bar> < pow2 (exponent x + 1)"
proof (cases "1 \<le> \<bar>x\<bar>")
  case True
  define m where "m = \<lfloor>\<bar>x\<bar>\<rfloor>"
  have m: "0 < m" using True by (simp add: m_def)
  have e: "exponent x = bitlen m - 1" using True by (simp add: exponent_def m_def)
  have b1: "1 \<le> bitlen m" using m by (simp add: bitlen_alt_def)
  note bb = bitlen_bounds [OF m]
  note lo = real_pow2_le [OF bb [THEN conjunct1]]
  note hi = real_succ_le_pow2 [OF bb [THEN conjunct2]]
  have mx: "of_int m \<le> \<bar>x\<bar>" "\<bar>x\<bar> < of_int m + 1" by (simp_all add: m_def)
  have p1: "pow2 (bitlen m - 1) = 2 ^ nat (bitlen m - 1)" using b1 by (simp add: pow2_def)
  have p2: "pow2 (bitlen m - 1 + 1) = 2 ^ nat (bitlen m)" using b1 by (simp add: pow2_def)
  show ?thesis unfolding e p1 p2 using lo hi mx by linarith
next
  case False
  define y where "y = 1 / \<bar>x\<bar>"
  define k where "k = \<lceil>y\<rceil> - 1"
  have x: "0 < \<bar>x\<bar>" "\<bar>x\<bar> < 1" using assms False by simp_all
  have y: "1 < y" using x by (simp add: y_def)
  have k: "0 < k" using y by (simp add: k_def)
  have ky: "of_int k < y" "y \<le> of_int k + 1" unfolding k_def by linarith+
  have e: "exponent x = - bitlen k" using False by (simp add: exponent_def k_def y_def)
  have b1: "1 \<le> bitlen k" using k by (simp add: bitlen_alt_def)
  note bb = bitlen_bounds [OF k]
  note lo = real_pow2_le [OF bb [THEN conjunct1]]
  note hi = real_succ_le_pow2 [OF bb [THEN conjunct2]]
  have xy: "\<bar>x\<bar> = 1 / y" using x by (simp add: y_def)
  have y0: "0 < y" using y by linarith
  have yh: "y \<le> 2 ^ nat (bitlen k)" using ky hi by linarith
  have yl: "2 ^ nat (bitlen k - 1) < y" using ky lo by linarith
  have 1: "1 / 2 ^ nat (bitlen k) \<le> 1 / y"
    using yh y0 by (simp add: frac_le)
  have 2: "1 / y < 1 / 2 ^ nat (bitlen k - 1)"
    using yl by (simp add: frac_less2)
  have p1: "pow2 (- bitlen k) = 1 / 2 ^ nat (bitlen k)" using b1 by (simp add: pow2_def)
  have p2: "pow2 (- bitlen k + 1) = 1 / 2 ^ nat (bitlen k - 1)"
    using b1 by (cases "bitlen k = 1") (simp_all add: pow2_def)
  show ?thesis unfolding e p1 p2 xy using 1 2 by simp
qed

lemma exponent_less:
  assumes "x \<noteq> 0" "\<bar>x\<bar> < pow2 E"
  shows "exponent x < E"
proof -
  have "pow2 (exponent x) < pow2 E"
    using exponent_bounds [OF assms(1)] assms(2) by linarith
  then show ?thesis by (simp only: pow2_less_iff)
qed

lemma roundHalfEven_cases:
  "roundHalfEven y = \<lfloor>y\<rfloor> \<and> y - of_int \<lfloor>y\<rfloor> \<le> 1 / 2
   \<or> roundHalfEven y = \<lfloor>y\<rfloor> + 1 \<and> 1 / 2 \<le> y - of_int \<lfloor>y\<rfloor>"
  by (simp add: roundHalfEven_def Let_def)

lemma roundHalfEven_nearest:
  "\<bar>of_int (roundHalfEven y) - y\<bar> \<le> \<bar>of_int k - y\<bar>"
proof -
  have f: "of_int \<lfloor>y\<rfloor> \<le> y" "y < of_int \<lfloor>y\<rfloor> + 1" by linarith+
  have "k \<le> \<lfloor>y\<rfloor> \<or> \<lfloor>y\<rfloor> + 1 \<le> k" by linarith
  then have "(of_int k :: real) \<le> of_int \<lfloor>y\<rfloor> \<or> (of_int (\<lfloor>y\<rfloor> + 1) :: real) \<le> of_int k"
    by (simp only: of_int_le_iff)
  then have c: "(of_int k :: real) \<le> of_int \<lfloor>y\<rfloor> \<or> (of_int \<lfloor>y\<rfloor> :: real) + 1 \<le> of_int k"
    by (simp only: of_int_add of_int_1)
  from roundHalfEven_cases [of y] show ?thesis
  proof
    assume a: "roundHalfEven y = \<lfloor>y\<rfloor> \<and> y - of_int \<lfloor>y\<rfloor> \<le> 1 / 2"
    then have r: "of_int (roundHalfEven y) = (of_int \<lfloor>y\<rfloor> :: real)" by simp
    show ?thesis unfolding r using a c f by linarith
  next
    assume a: "roundHalfEven y = \<lfloor>y\<rfloor> + 1 \<and> 1 / 2 \<le> y - of_int \<lfloor>y\<rfloor>"
    then have r: "of_int (roundHalfEven y) = (of_int \<lfloor>y\<rfloor> :: real) + 1" by simp
    show ?thesis unfolding r using a c f by linarith
  qed
qed

lemma roundHalfEven_half: "\<bar>of_int (roundHalfEven y) - y\<bar> \<le> 1 / 2"
proof -
  have f: "of_int \<lfloor>y\<rfloor> \<le> y" "y < of_int \<lfloor>y\<rfloor> + 1" by linarith+
  from roundHalfEven_cases [of y] show ?thesis
  proof
    assume a: "roundHalfEven y = \<lfloor>y\<rfloor> \<and> y - of_int \<lfloor>y\<rfloor> \<le> 1 / 2"
    then have r: "of_int (roundHalfEven y) = (of_int \<lfloor>y\<rfloor> :: real)" by simp
    show ?thesis unfolding r using a f by linarith
  next
    assume a: "roundHalfEven y = \<lfloor>y\<rfloor> + 1 \<and> 1 / 2 \<le> y - of_int \<lfloor>y\<rfloor>"
    then have r: "of_int (roundHalfEven y) = (of_int \<lfloor>y\<rfloor> :: real) + 1" by simp
    show ?thesis unfolding r using a f by linarith
  qed
qed

lemma fl_diff:
  assumes "x \<noteq> 0"
  shows "\<bar>fl x - x\<bar>
    = pow2 (exponent x - 52)
        * \<bar>of_int (roundHalfEven (x / pow2 (exponent x - 52))) - x / pow2 (exponent x - 52)\<bar>"
proof -
  define u where "u = pow2 (exponent x - 52)"
  have u: "0 < u" by (simp add: u_def pow2_pos)
  have "fl x - x = u * (of_int (roundHalfEven (x / u)) - x / u)"
    using assms u by (simp add: fl_def u_def [symmetric] Let_def right_diff_distrib)
  then have "\<bar>fl x - x\<bar> = u * \<bar>of_int (roundHalfEven (x / u)) - x / u\<bar>"
    using u by (simp add: abs_mult)
  then show ?thesis unfolding u_def .
qed

lemma fl_error:
  assumes "x \<noteq> 0"
  shows "\<bar>fl x - x\<bar> \<le> pow2 (exponent x - 53)"
proof -
  define u where "u = pow2 (exponent x - 52)"
  have u: "0 \<le> u" using pow2_pos [of "exponent x - 52"] by (simp add: u_def)
  have "\<bar>fl x - x\<bar> = u * \<bar>of_int (roundHalfEven (x / u)) - x / u\<bar>"
    unfolding u_def by (rule fl_diff [OF assms])
  also have "\<dots> \<le> u * (1 / 2)"
    by (rule mult_left_mono [OF roundHalfEven_half u])
  also have "\<dots> = pow2 (exponent x - 53)"
    using pow2_add [of "exponent x - 53" 1] by (simp add: u_def pow2_def)
  finally show ?thesis .
qed




lemma fl_nearest_int:
  assumes "\<bar>x\<bar> < 2 ^ 53"
  shows "\<bar>fl x - x\<bar> \<le> \<bar>of_int k - x\<bar>"
proof (cases "x = 0")
  case True
  then show ?thesis by (simp add: fl_def)
next
  case False
  define u where "u = pow2 (exponent x - 52)"
  have u: "0 < u" by (simp add: u_def pow2_pos)
  have "\<bar>x\<bar> < pow2 53" using assms by (simp add: pow2_def)
  then have e: "exponent x < 53" by (rule exponent_less [OF False])
  then have "u = 1 / 2 ^ nat (52 - exponent x)"
    by (cases "exponent x = 52") (simp_all add: u_def pow2_def)
  then have ui: "1 / u = of_int (2 ^ nat (52 - exponent x))" by simp
  have "of_int k / u = of_int k * (1 / u)" by simp
  also have "\<dots> = of_int (k * 2 ^ nat (52 - exponent x))" unfolding ui by simp
  finally have ku: "of_int k / u = of_int (k * 2 ^ nat (52 - exponent x))" .
  have "\<bar>fl x - x\<bar> = u * \<bar>of_int (roundHalfEven (x / u)) - x / u\<bar>"
    unfolding u_def by (rule fl_diff [OF False])
  also have "\<dots> \<le> u * \<bar>of_int (k * 2 ^ nat (52 - exponent x)) - x / u\<bar>"
    by (rule mult_left_mono [OF roundHalfEven_nearest]) (simp add: u less_imp_le)
  also have "\<dots> = u * \<bar>(of_int k - x) / u\<bar>"
    unfolding ku [symmetric] by (simp only: diff_divide_distrib)
  also have "\<dots> = \<bar>of_int k - x\<bar>"
    using u by (simp add: abs_divide)
  finally show ?thesis .
qed

lemma real_abs_less_pow2:
  fixes k :: int
  assumes "\<bar>k\<bar> < 2 ^ n"
  shows "\<bar>of_int k :: real\<bar> < 2 ^ n"
proof -
  have "(of_int \<bar>k\<bar> :: real) < of_int (2 ^ n)" using assms by (simp only: of_int_less_iff)
  then show ?thesis by (simp only: of_int_power of_int_numeral of_int_abs)
qed

lemma fl_int:
  assumes "\<bar>k\<bar> < 2 ^ 53"
  shows "fl (of_int k) = of_int k"
  using fl_nearest_int [OF real_abs_less_pow2 [OF assms], of k] by simp

text \<open>
  Below \<open>2^53\<close> the rounded quotient of a whole number by 20, 10 or 5 has the floor of
  the exact quotient: the exact quotient is at least \<open>1/d\<close> below the next whole number,
  and half a unit in the last place is less than that.
\<close>

lemma floor_fl_div:
  fixes r d :: int
  assumes r: "0 \<le> r" "r < 2 ^ 53" and d: "0 < d"
    and E: "of_int r / of_int d < pow2 E" "pow2 (E - 54) < 1 / of_int d"
  shows "\<lfloor>fl (of_int r / of_int d)\<rfloor> = r div d"
proof -
  define y :: real where "y = of_int r / of_int d"
  define q where "q = r div d"
  define m where "m = r mod d"
  have rd: "r = d * q + m" by (simp add: q_def m_def)
  have m: "0 \<le> m" "m + 1 \<le> d"
    using pos_mod_sign [OF d, of r] pos_mod_bound [OF d, of r] by (simp_all add: m_def)
  have mr: "(0::real) \<le> of_int m" "(of_int m :: real) + 1 \<le> of_int d"
    using m by linarith+
  have d0: "(0::real) < of_int d" using d by simp
  have "y = (of_int d * of_int q + of_int m) / of_int d"
    unfolding y_def rd by simp
  also have "\<dots> = of_int q + of_int m / of_int d"
    using d0 by (simp add: add_divide_distrib)
  finally have yq: "y = of_int q + of_int m / of_int d" .
  have f1: "0 \<le> of_int m / (of_int d :: real)" using mr d0 by simp
  have "of_int m / (of_int d :: real) \<le> (of_int d - 1) / of_int d"
    using mr d0 by (intro divide_right_mono) simp_all
  also have "\<dots> = 1 - 1 / of_int d" using d0 by (simp add: diff_divide_distrib)
  finally have f2: "of_int m / (of_int d :: real) \<le> 1 - 1 / of_int d" .
  have q0: "0 \<le> q" using r d by (simp add: q_def pos_imp_zdiv_nonneg_iff)
  have qr: "(0::real) \<le> of_int q" using q0 by simp
  have y0: "0 \<le> y" unfolding yq using qr f1 by linarith
  have "y \<le> of_int r" 
  proof -
    have "(1::real) \<le> of_int d" using d by linarith
    then have "of_int r / of_int d \<le> (of_int r :: real) / 1"
      using r by (intro divide_left_mono) simp_all
    then show ?thesis by (simp add: y_def)
  qed
  moreover have "(of_int r :: real) < 2 ^ 53"
  proof -
    have "(of_int r :: real) < of_int (2 ^ 53)" using r(2) by (simp only: of_int_less_iff)
    then show ?thesis by simp
  qed
  ultimately have ya: "\<bar>y\<bar> < 2 ^ 53" using y0 by linarith
  have lo: "of_int q \<le> fl y"
    using fl_nearest_int [OF ya, of q] yq f1 by linarith
  have err: "\<bar>fl y - y\<bar> < 1 / of_int d"
  proof (cases "y = 0")
    case True
    then show ?thesis using d0 by (simp add: fl_def)
  next
    case False
    have "\<bar>y\<bar> < pow2 E" using E(1) y0 by (simp add: y_def)
    then have "exponent y < E" by (rule exponent_less [OF False])
    then have "pow2 (exponent y - 53) \<le> pow2 (E - 54)" by (intro pow2_mono) simp
    with fl_error [OF False] E(2) show ?thesis by linarith
  qed
  have hi: "fl y < of_int q + 1" using err yq f2 by linarith
  have "\<lfloor>fl y\<rfloor> = q" using lo hi by (simp add: floor_unique)
  then show ?thesis unfolding y_def q_def .
qed

lemma real_less_2_53:
  fixes r :: int
  assumes "r < 2 ^ 53"
  shows "(of_int r :: real) < 2 ^ 53"
proof -
  have "(of_int r :: real) < of_int (2 ^ 53)" using assms by (simp only: of_int_less_iff)
  then show ?thesis by simp
qed

lemma floor_fl_div20:
  fixes r :: int
  assumes "0 \<le> r" "r < 2 ^ 53"
  shows "\<lfloor>fl (of_int r / 20)\<rfloor> = r div 20"
proof -
  have "(of_int r :: real) / of_int 20 < pow2 49"
    using real_less_2_53 [OF assms(2)] by (simp add: pow2_def)
  moreover have "pow2 (49 - 54) < 1 / of_int 20" by (simp add: pow2_def)
  ultimately show ?thesis
    using floor_fl_div [OF assms, of 20 49] by simp
qed

lemma floor_fl_div10:
  fixes r :: int
  assumes "0 \<le> r" "r < 2 ^ 53"
  shows "\<lfloor>fl (of_int r / 10)\<rfloor> = r div 10"
proof -
  have "(of_int r :: real) / of_int 10 < pow2 50"
    using real_less_2_53 [OF assms(2)] by (simp add: pow2_def)
  moreover have "pow2 (50 - 54) < 1 / of_int 10" by (simp add: pow2_def)
  ultimately show ?thesis
    using floor_fl_div [OF assms, of 10 50] by simp
qed

lemma floor_fl_div5:
  fixes r :: int
  assumes "0 \<le> r" "r < 2 ^ 53"
  shows "\<lfloor>fl (of_int r / 5)\<rfloor> = r div 5"
proof -
  have "(of_int r :: real) / of_int 5 < pow2 51"
    using real_less_2_53 [OF assms(2)] by (simp add: pow2_def)
  moreover have "pow2 (51 - 54) < 1 / of_int 5" by (simp add: pow2_def)
  ultimately show ?thesis
    using floor_fl_div [OF assms, of 5 51] by simp
qed

lemma fl_remainder:
  fixes r d :: int
  assumes "0 \<le> r" "r < 2 ^ 53" "0 < d"
  shows "fl (of_int r - fl (of_int (r div d) * of_int d)) = of_int (r mod d)"
proof -
  have a: "r div d * d = r - r mod d" by (simp add: minus_mod_eq_div_mult)
  have b: "0 \<le> r mod d" using assms(3) by simp
  have c: "0 \<le> r div d" using assms by (simp add: pos_imp_zdiv_nonneg_iff)
  have "0 \<le> r div d * d" using c assms(3) by simp
  moreover have "r div d * d \<le> r" unfolding a using b by simp
  ultimately have "\<bar>r div d * d\<bar> < 2 ^ 53" using assms(2) by linarith
  from fl_int [OF this] have p: "fl (of_int (r div d) * of_int d) = of_int (r div d * d)"
    by simp
  have m: "0 \<le> r mod d" "r mod d \<le> r" using assms by (simp_all add: zmod_le_nonneg_dividend)
  then have "\<bar>r mod d\<bar> < 2 ^ 53" using assms(2) by linarith
  from fl_int [OF this] have s: "fl (of_int (r mod d)) = of_int (r mod d)" .
  have "(of_int r :: real) - of_int (r div d * d) = of_int (r mod d)"
    by (simp add: minus_div_mult_eq_mod [symmetric])
  then show ?thesis unfolding p using s by simp
qed




section \<open>Properties of the bill breakdown\<close>

text \<open>
  For an amount below \<open>2^53\<close> the double operations of \<open>breakdownBills\<close> are exact: the
  counts are the quotients and remainders of the clamped floor.
\<close>

lemma breakdownBills_int:
  assumes "\<lfloor>x\<rfloor> < 2 ^ 53"
  shows "breakdownBills x =
     (let n = max 0 \<lfloor>x\<rfloor>
      in \<lparr>twenties = n div 20, tens = n mod 20 div 10,
          fives = n mod 20 mod 10 div 5, ones = n mod 20 mod 10 mod 5\<rparr>)"
proof -
  define n where "n = max 0 \<lfloor>x\<rfloor>"
  have n: "0 \<le> n" "n < 2 ^ 53" using assms by (simp_all add: n_def)
  have n1: "0 \<le> n mod 20" "n mod 20 < 2 ^ 53"
    using n zmod_le_nonneg_dividend [of n 20] by simp_all
  have n2: "0 \<le> n mod 20 mod 10" "n mod 20 mod 10 < 2 ^ 53"
    using n1 zmod_le_nonneg_dividend [of "n mod 20" 10] by simp_all
  have r0: "max 0 (of_int \<lfloor>x\<rfloor> :: real) = of_int n"
    by (simp add: n_def max_def)
  note tw = floor_fl_div20 [OF n]
  have r1: "fl ((of_int n :: real) - fl (of_int (n div 20) * 20)) = of_int (n mod 20)"
    using fl_remainder [OF n, of 20] by simp
  note te = floor_fl_div10 [OF n1]
  have r2: "fl ((of_int (n mod 20) :: real) - fl (of_int (n mod 20 div 10) * 10))
      = of_int (n mod 20 mod 10)"
    using fl_remainder [OF n1, of 10] by simp
  note fi = floor_fl_div5 [OF n2]
  have r3: "fl ((of_int (n mod 20 mod 10) :: real) - fl (of_int (n mod 20 mod 10 div 5) * 5))
      = of_int (n mod 20 mod 10 mod 5)"
    using fl_remainder [OF n2, of 5] by simp
  show ?thesis
    unfolding breakdownBills_def Let_def n_def [symmetric] r0 tw r1 te r2 fi r3
    by simp
qed

lemma divmod_unique:
  fixes q r d :: int
  assumes "0 \<le> r" "r < d"
  shows "(d * q + r) div d = q" and "(d * q + r) mod d = r"
  using assms by (simp_all add: div_pos_pos_trivial mod_pos_pos_trivial)

lemma greedy_digits:
  fixes n :: int
  shows "20 * (n div 20) + 10 * (n mod 20 div 10) + 5 * (n mod 20 mod 10 div 5)
             + n mod 20 mod 10 mod 5 = n"
    and "0 \<le> n mod 20 div 10" and "n mod 20 div 10 \<le> 1"
    and "0 \<le> n mod 20 mod 10 div 5" and "n mod 20 mod 10 div 5 \<le> 1"
    and "0 \<le> n mod 20 mod 10 mod 5" and "n mod 20 mod 10 mod 5 \<le> 4"
  by presburger+

text \<open>
  Claim C1, as amended. For every integer \<open>n\<close> with \<open>0 \<le> n < 2^53\<close>, \<open>breakdownBills n\<close>
  returns counts whose value \<open>20 * twenties + 10 * tens + 5 * fives + ones\<close> is exactly
  \<open>n\<close>, with \<open>ones\<close> in \<open>[0, 4]\<close>, \<open>fives\<close> and \<open>tens\<close> in \<open>{0, 1}\<close>. It is the greedy
  decomposition, largest denomination first (each count is the quotient of what remains
  by the denomination), and it is the only decomposition within those ranges: any
  \<open>t, te, f, o'\<close> in the ranges with value \<open>n\<close> is the result of \<open>breakdownBills\<close>.
\<close>

theorem breakdownBills_greedy_unique:
  fixes n t te f o' :: int
  assumes "0 \<le> n" and "n < 2 ^ 53"
  shows "billsValue (breakdownBills (of_int n)) = n
    \<and> 0 \<le> ones (breakdownBills (of_int n)) \<and> ones (breakdownBills (of_int n)) \<le> 4
    \<and> fives (breakdownBills (of_int n)) \<in> {0, 1}
    \<and> tens (breakdownBills (of_int n)) \<in> {0, 1}
    \<and> 0 \<le> twenties (breakdownBills (of_int n))
    \<and> twenties (breakdownBills (of_int n)) = n div 20
    \<and> tens (breakdownBills (of_int n)) = (n - 20 * (n div 20)) div 10
    \<and> fives (breakdownBills (of_int n))
        = (n - 20 * (n div 20) - 10 * tens (breakdownBills (of_int n))) div 5
    \<and> (0 \<le> t \<and> te \<in> {0, 1} \<and> f \<in> {0, 1} \<and> 0 \<le> o' \<and> o' \<le> 4
        \<and> 20 * t + 10 * te + 5 * f + o' = n
        \<longrightarrow> breakdownBills (of_int n) = \<lparr>twenties = t, tens = te, fives = f, ones = o'\<rparr>)"
proof -
  have bd: "breakdownBills (of_int n) =
      \<lparr>twenties = n div 20, tens = n mod 20 div 10,
       fives = n mod 20 mod 10 div 5, ones = n mod 20 mod 10 mod 5\<rparr>"
  proof -
    have "\<lfloor>of_int n :: real\<rfloor> < 2 ^ 53" using assms(2) by simp
    from breakdownBills_int [OF this] assms(1) show ?thesis by (simp add: Let_def)
  qed
  note g = greedy_digits [of n]
  have f: "n mod 20 mod 10 div 5 = 0 \<or> n mod 20 mod 10 div 5 = 1" using g(4,5) by linarith
  have t: "n mod 20 div 10 = 0 \<or> n mod 20 div 10 = 1" using g(2,3) by linarith
  have t2: "n mod 20 div 10 = (n - 20 * (n div 20)) div 10"
    by (simp add: minus_mult_div_eq_mod)
  have f2: "n mod 20 mod 10 div 5 = (n - 20 * (n div 20) - 10 * (n mod 20 div 10)) div 5"
    by (simp add: minus_mult_div_eq_mod)
  have p: "0 \<le> n div 20" using assms by (simp add: pos_imp_zdiv_nonneg_iff)
  have u: "n div 20 = t \<and> n mod 20 div 10 = te \<and> n mod 20 mod 10 div 5 = f
           \<and> n mod 20 mod 10 mod 5 = o'"
    if h: "0 \<le> t" "te \<in> {0, 1}" "f \<in> {0, 1}" "0 \<le> o'" "o' \<le> 4"
       "20 * t + 10 * te + 5 * f + o' = n"
  proof -
    from h have r1: "0 \<le> 10 * te + 5 * f + o'" "10 * te + 5 * f + o' < 20" by auto
    from h have r2: "0 \<le> 5 * f + o'" "5 * f + o' < 10" by auto
    have n: "n = 20 * t + (10 * te + 5 * f + o')" using h(6) by simp
    have 1: "n div 20 = t" and m1: "n mod 20 = 10 * te + (5 * f + o')"
      unfolding n using divmod_unique [OF r1, of t] by (simp_all add: add.assoc)
    have 2: "n mod 20 div 10 = te" and m2: "n mod 20 mod 10 = 5 * f + o'"
      unfolding m1 using divmod_unique [OF r2, of te] by simp_all
    have 3: "n mod 20 mod 10 div 5 = f" and 4: "n mod 20 mod 10 mod 5 = o'"
      unfolding m2 using divmod_unique [OF h(4), of 5 f] h(5) by simp_all
    from 1 2 3 4 show ?thesis by simp
  qed
  have s: "twenties (breakdownBills (of_int n)) = n div 20"
    "tens (breakdownBills (of_int n)) = n mod 20 div 10"
    "fives (breakdownBills (of_int n)) = n mod 20 mod 10 div 5"
    "ones (breakdownBills (of_int n)) = n mod 20 mod 10 mod 5"
    unfolding bd by simp_all
  have v: "billsValue (breakdownBills (of_int n)) = n"
    unfolding billsValue_def s using g(1) .
  have u': "0 \<le> t \<and> te \<in> {0, 1} \<and> f \<in> {0, 1} \<and> 0 \<le> o' \<and> o' \<le> 4
        \<and> 20 * t + 10 * te + 5 * f + o' = n
        \<longrightarrow> breakdownBills (of_int n) = \<lparr>twenties = t, tens = te, fives = f, ones = o'\<rparr>"
    unfolding bd using u by blast
  have fs: "n mod 20 mod 10 div 5 \<in> {0, 1}" and ts: "n mod 20 div 10 \<in> {0, 1}"
    using f t by blast+
  show ?thesis
    unfolding s using v [unfolded s] g(6,7) fs ts p t2 f2 u' [unfolded s] by blast
qed

theorem breakdownBills_greedy_unique_witness:
  "(0::int) \<le> 9007199254740991 \<and> (9007199254740991::int) < 2 ^ 53
   \<and> breakdownBills 9007199254740991
       = \<lparr>twenties = 450359962737049, tens = 1, fives = 0, ones = 1\<rparr>
   \<and> billsValue (breakdownBills 9007199254740991) = 9007199254740991"
proof -
  have h1: "(0::int) \<le> 9007199254740991" by simp
  have h2: "(9007199254740991::int) < 2 ^ 53" by simp
  from breakdownBills_greedy_unique [OF h1 h2, of 450359962737049 1 0 1] show ?thesis
    by (simp add: billsValue_def)
qed

text \<open>
  Claim C1 as stated fails above \<open>2^53\<close>, where the doubles no longer hold every whole
  number. \<open>100000000000000016\<close> is a double. Its quotient by 20,
  \<open>5000000000000000.8\<close>, lies where the doubles are the whole numbers and is rounded to
  \<open>5000000000000001\<close>; the product \<open>100000000000000020\<close> lies where the doubles are the
  multiples of 16 and is rounded to \<open>100000000000000016\<close>, so nothing remains. The notes
  returned are worth 4 more than the amount.
\<close>

theorem breakdownBills_overshoots:
  "fl 100000000000000016 = 100000000000000016
   \<and> breakdownBills 100000000000000016
       = \<lparr>twenties = 5000000000000001, tens = 0, fives = 0, ones = 0\<rparr>
   \<and> billsValue (breakdownBills 100000000000000016) = 100000000000000020
   \<and> billsValue (breakdownBills 100000000000000016) \<noteq> 100000000000000016"
  by code_simp

text \<open>
  Claim C10, as amended. \<open>breakdownBills\<close> has no failing branch, and for every real \<open>x\<close>
  below \<open>2^53\<close>, negative and fractional values included, the result is the greedy
  decomposition of \<open>max 0 (floor x)\<close>, all four counts are non-negative integers, and the
  value of the notes is the clamped floor.
\<close>

theorem breakdownBills_total:
  fixes x :: real
  assumes "x < 2 ^ 53"
  shows "breakdownBills x = breakdownBills (of_int (max 0 \<lfloor>x\<rfloor>))
    \<and> twenties (breakdownBills x) = max 0 \<lfloor>x\<rfloor> div 20
    \<and> tens (breakdownBills x) = max 0 \<lfloor>x\<rfloor> mod 20 div 10
    \<and> fives (breakdownBills x) = max 0 \<lfloor>x\<rfloor> mod 20 mod 10 div 5
    \<and> ones (breakdownBills x) = max 0 \<lfloor>x\<rfloor> mod 20 mod 10 mod 5
    \<and> 0 \<le> twenties (breakdownBills x) \<and> 0 \<le> tens (breakdownBills x)
    \<and> 0 \<le> fives (breakdownBills x) \<and> 0 \<le> ones (breakdownBills x)
    \<and> billsValue (breakdownBills x) = max 0 \<lfloor>x\<rfloor>"
proof -
  define n where "n = max 0 \<lfloor>x\<rfloor>"
  have n0: "0 \<le> n" by (simp add: n_def)
  have "\<lfloor>x\<rfloor> < 2 ^ 53" using assms by (simp add: floor_less_iff)
  then have xs: "\<lfloor>x\<rfloor> < 2 ^ 53" and ns: "\<lfloor>of_int n :: real\<rfloor> < 2 ^ 53"
    by (simp_all add: n_def)
  have bd: "breakdownBills x =
      \<lparr>twenties = n div 20, tens = n mod 20 div 10,
       fives = n mod 20 mod 10 div 5, ones = n mod 20 mod 10 mod 5\<rparr>"
    using breakdownBills_int [OF xs] by (simp add: n_def Let_def)
  have bd': "breakdownBills (of_int n) =
      \<lparr>twenties = n div 20, tens = n mod 20 div 10,
       fives = n mod 20 mod 10 div 5, ones = n mod 20 mod 10 mod 5\<rparr>"
    using breakdownBills_int [OF ns] n0 by (simp add: Let_def)
  note g = greedy_digits [of n]
  have p: "0 \<le> n div 20" using n0 by (simp add: pos_imp_zdiv_nonneg_iff)
  have v: "billsValue (breakdownBills x) = n"
    unfolding bd billsValue_def using g(1) by simp
  have e: "breakdownBills x = breakdownBills (of_int n)"
    unfolding bd bd' ..
  have s: "twenties (breakdownBills x) = n div 20" "tens (breakdownBills x) = n mod 20 div 10"
    "fives (breakdownBills x) = n mod 20 mod 10 div 5"
    "ones (breakdownBills x) = n mod 20 mod 10 mod 5"
    unfolding bd by simp_all
  show ?thesis
    unfolding n_def [symmetric] s using e v s g(2,4,6) p by blast
qed

theorem breakdownBills_total_witness:
  "(279 / 10 :: real) < 2 ^ 53
   \<and> breakdownBills (279 / 10) = \<lparr>twenties = 1, tens = 0, fives = 1, ones = 2\<rparr>
   \<and> (- (7 / 2) :: real) < 2 ^ 53
   \<and> breakdownBills (- (7 / 2)) = \<lparr>twenties = 0, tens = 0, fives = 0, ones = 0\<rparr>"
proof -
  have h1: "(279 / 10 :: real) < 2 ^ 53" by simp
  have h2: "(- (7 / 2) :: real) < 2 ^ 53" by simp
  have f1: "max 0 \<lfloor>279 / 10 :: real\<rfloor> = 27" by simp
  have f2: "max 0 \<lfloor>- (7 / 2) :: real\<rfloor> = 0" by simp
  from breakdownBills_total [OF h1]
  have a: "twenties (breakdownBills (279 / 10)) = max 0 \<lfloor>279 / 10 :: real\<rfloor> div 20"
    "tens (breakdownBills (279 / 10)) = max 0 \<lfloor>279 / 10 :: real\<rfloor> mod 20 div 10"
    "fives (breakdownBills (279 / 10)) = max 0 \<lfloor>279 / 10 :: real\<rfloor> mod 20 mod 10 div 5"
    "ones (breakdownBills (279 / 10)) = max 0 \<lfloor>279 / 10 :: real\<rfloor> mod 20 mod 10 mod 5"
    by blast+
  from breakdownBills_total [OF h2]
  have b: "twenties (breakdownBills (- (7 / 2))) = max 0 \<lfloor>- (7 / 2) :: real\<rfloor> div 20"
    "tens (breakdownBills (- (7 / 2))) = max 0 \<lfloor>- (7 / 2) :: real\<rfloor> mod 20 div 10"
    "fives (breakdownBills (- (7 / 2))) = max 0 \<lfloor>- (7 / 2) :: real\<rfloor> mod 20 mod 10 div 5"
    "ones (breakdownBills (- (7 / 2))) = max 0 \<lfloor>- (7 / 2) :: real\<rfloor> mod 20 mod 10 mod 5"
    by blast+
  have e1: "breakdownBills (279 / 10) = \<lparr>twenties = 1, tens = 0, fives = 1, ones = 2\<rparr>"
    by (rule bills.equality) (simp_all add: a [unfolded f1])
  have e2: "breakdownBills (- (7 / 2)) = \<lparr>twenties = 0, tens = 0, fives = 0, ones = 0\<rparr>"
    by (rule bills.equality) (simp_all add: b [unfolded f2])
  from h1 e1 h2 e2 show ?thesis by blast
qed

text \<open>
  Claim C10 as stated fails above \<open>2^53\<close>: a count can be negative.
  \<open>100000000000000112\<close> is a double. Its quotient by 20, \<open>5000000000000005.6\<close>, is
  rounded to \<open>5000000000000006\<close>; the product \<open>100000000000000120\<close> lies halfway between
  two doubles and goes to \<open>100000000000000128\<close>; what remains is \<open>-16\<close>, of which
  \<open>Math.floor(-1.6) = -2\<close> tens are taken, and 4 ones remain.
\<close>

theorem breakdownBills_negative_count:
  "fl 100000000000000112 = 100000000000000112
   \<and> breakdownBills 100000000000000112
       = \<lparr>twenties = 5000000000000006, tens = - 2, fives = 0, ones = 4\<rparr>
   \<and> \<not> 0 \<le> tens (breakdownBills 100000000000000112)
   \<and> billsValue (breakdownBills 100000000000000112) \<noteq> 100000000000000112"
  by code_simp

section \<open>Properties of the allocator\<close>

lemma foldl_calcStep:
  "foldl (calcStep payout rate) acc ps =
     \<lparr>acc_results = acc_results acc @ map (calcPartner payout rate) ps,
      acc_sumDecimalTips = acc_sumDecimalTips acc
         + sum_list (map (\<lambda>p. decimalTip (calcPartner payout rate p)) ps),
      acc_sumWholeDollarPayout = acc_sumWholeDollarPayout acc
         + sum_list (map (\<lambda>p. wholeDollarPayout (calcPartner payout rate p)) ps),
      acc_totalsBills = foldl addBills (acc_totalsBills acc)
         (map (\<lambda>p. breakdown (calcPartner payout rate p)) ps)\<rparr>"
proof (induction ps arbitrary: acc)
  case Nil
  show ?case by simp
next
  case (Cons p ps)
  show ?case
    unfolding foldl_Cons Cons.IH
    by (simp add: calcStep_def Let_def add.assoc)
qed

lemma calculate_Inr:
  assumes "0 < t" and "0 < totalHoursOf ps"
  shows "calculate payout (Some t) ps =
    Inr (map (calcPartner payout (truncateToTwoDecimals (t / totalHoursOf ps))) ps,
      \<lparr>s_hourlyRate = truncateToTwoDecimals (t / totalHoursOf ps), s_totalTips = t,
       sumDecimalTips = sum_list (map (\<lambda>p. decimalTip (calcPartner payout (truncateToTwoDecimals (t / totalHoursOf ps)) p)) ps),
       sumWholeDollarPayout = sum_list (map (\<lambda>p. wholeDollarPayout (calcPartner payout (truncateToTwoDecimals (t / totalHoursOf ps)) p)) ps),
       s_totalHours = totalHoursOf ps,
       totalsBills = foldl addBills noBills (map (\<lambda>p. breakdown (calcPartner payout (truncateToTwoDecimals (t / totalHoursOf ps)) p)) ps)\<rparr>)"
  using assms by (simp add: calculate_def Let_def foldl_calcStep)




text \<open>
  On the example of the specification the rate computed in doubles is the double \<open>1.44\<close>,
  the double nearest to the rate of the exact computation, and at
  \<open>totalCash = 0.99999999995\<close> and one hour both give the rate 1. At
  \<open>totalCash = 1989999.98\<close> and \<open>H = 999999.99\<close> the exact computation gives 1.98 where
  the doubles give 1.99.
\<close>

lemma hourlyRate_fl_examples:
  "hourlyRate_fl 40 (fl (fl (922 / 100) + fl (1848 / 100))) = fl (144 / 100)"
  "truncateToTwoDecimals (40 / (922 / 100 + 1848 / 100)) = 144 / 100"
  "hourlyRate_fl (fl (99999999995 / 10 ^ 11)) 1 = 1"
  "truncateToTwoDecimals (99999999995 / 10 ^ 11 / 1) = 1"
  "truncateToTwoDecimals (fl (198999998 / 100) / fl (99999999 / 100)) = 198 / 100"
  by code_simp+


text \<open>
  The same happens with a cash amount in whole cents and hours with two decimals, once
  the hours are large: \<open>totalCash = 10000.00\<close> and \<open>H = 1000000.01\<close> give the rate 0.01.
\<close>

lemma hourlyRate_exceeds_cash_cents:
  "map_sum id (\<lambda>out. s_hourlyRate (snd out))
     (fst (runCalculations (Some 10000)
        \<lparr>partners = [\<lparr>p_id = 1, p_name = ''A'', p_number = ''US1'',
                       p_hours = Some (100000001 / 100)\<rparr>],
         lastCalculationResults = [], lastHourlyRate = 0\<rparr>)) = Inr (1 / 100)
   \<and> \<not> ((1::real) / 100 * (100000001 / 100) \<le> 10000)"
  by code_simp

text \<open>
  Claim C2. With \<open>totalCash = 40.00\<close> and partner hours \<open>[9.22, 18.48]\<close> the allocator
  yields total hours 27.70, the truncated hourly rate 1.44, the decimal tips 13.28 and
  26.61, the nearest-dollar payouts 13 and 27, and the bill breakdowns
  \<open>{twenties: 0, tens: 1, fives: 0, ones: 3}\<close> and \<open>{twenties: 1, tens: 0, fives: 1, ones: 2}\<close>.
  The run also stores these results and the rate as the last calculation.
\<close>

theorem round_trip_example:
  "runCalculations (Some 40) example_state =
    (Inr ([\<lparr>r_name = ''A'', r_number = ''US1'', r_hours = 922 / 100, decimalTip = 1328 / 100,
             wholeDollarPayout = 13,
             breakdown = \<lparr>twenties = 0, tens = 1, fives = 0, ones = 3\<rparr>\<rparr>,
           \<lparr>r_name = ''B'', r_number = ''US2'', r_hours = 1848 / 100, decimalTip = 2661 / 100,
             wholeDollarPayout = 27,
             breakdown = \<lparr>twenties = 1, tens = 0, fives = 1, ones = 2\<rparr>\<rparr>],
          \<lparr>s_hourlyRate = 144 / 100, s_totalTips = 40, sumDecimalTips = 3989 / 100,
           sumWholeDollarPayout = 40, s_totalHours = 2770 / 100,
           totalsBills = \<lparr>twenties = 1, tens = 1, fives = 1, ones = 5\<rparr>\<rparr>),
     example_state
       \<lparr>lastCalculationResults :=
          [\<lparr>r_name = ''A'', r_number = ''US1'', r_hours = 922 / 100, decimalTip = 1328 / 100,
             wholeDollarPayout = 13,
             breakdown = \<lparr>twenties = 0, tens = 1, fives = 0, ones = 3\<rparr>\<rparr>,
           \<lparr>r_name = ''B'', r_number = ''US2'', r_hours = 1848 / 100, decimalTip = 2661 / 100,
             wholeDollarPayout = 27,
             breakdown = \<lparr>twenties = 1, tens = 0, fives = 1, ones = 2\<rparr>\<rparr>],
        lastHourlyRate := 144 / 100\<rparr>)"
  by code_simp

text \<open>
  Claim C8. The allocation variants are not extensionally equal in their whole-dollar
  step: for the decimal tip 13.28 the variant that rounds to the nearest dollar gives 13
  and the variant that rounds up gives 14; on the table with hours \<open>[9.22, 18.48]\<close> and
  \<open>totalCash = 40.00\<close> the two \<open>runCalculations\<close> give the payouts \<open>[13, 27]\<close> and \<open>[14, 27]\<close>.
\<close>

theorem payout_policies_differ:
  "wholeDollarPayout_nearest (1328 / 100) = 13 \<and> wholeDollarPayout_up (1328 / 100) = 14
   \<and> (\<exists>decimalTip. wholeDollarPayout_nearest decimalTip \<noteq> wholeDollarPayout_up decimalTip)
   \<and> map_sum id (\<lambda>out. map wholeDollarPayout (fst out))
        (fst (runCalculations (Some 40) example_state)) = Inr [13, 27]
   \<and> map_sum id (\<lambda>out. map wholeDollarPayout (fst out))
        (fst (runCalculations_roundUp (Some 40) example_state)) = Inr [14, 27]"
proof -
  have a: "wholeDollarPayout_nearest (1328 / 100) = 13"
    by (simp add: wholeDollarPayout_nearest_def Math_round_def eps_def)
  have b: "wholeDollarPayout_up (1328 / 100) = 14"
    by (simp add: wholeDollarPayout_up_def eps_def)
  from a b have "wholeDollarPayout_nearest (1328 / 100) \<noteq> wholeDollarPayout_up (1328 / 100)"
    by simp
  then have c: "\<exists>decimalTip. wholeDollarPayout_nearest decimalTip \<noteq> wholeDollarPayout_up decimalTip"
    by blast
  have d: "map_sum id (\<lambda>out. map wholeDollarPayout (fst out))
        (fst (runCalculations (Some 40) example_state)) = Inr [13, 27]"
    by code_simp
  have e: "map_sum id (\<lambda>out. map wholeDollarPayout (fst out))
        (fst (runCalculations_roundUp (Some 40) example_state)) = Inr [14, 27]"
    by code_simp
  from a b c d e show ?thesis by blast
qed

section \<open>Properties of the redistribution\<close>

lemma allocateWhile_inv:
  assumes "allocateWhile d (r, a, g) = (r', a', g')" and "0 \<le> a"
  shows "0 \<le> a' \<and> a' + g' = a + g \<and> g \<le> g'"
  using assms
proof (induction d "(r, a, g)" arbitrary: r a g rule: allocateWhile.induct)
  case (1 d remaining avail given)
  show ?case
  proof (cases "remaining \<ge> d \<and> avail > 0")
    case True
    with "1.prems" have "allocateWhile d (remaining - d, avail - 1, given + 1) = (r', a', g')"
      by (simp add: allocateWhile.simps [of d remaining avail given])
    from "1.hyps" [OF True this] True show ?thesis by simp
  next
    case False
    with "1.prems" show ?thesis
      by (simp add: allocateWhile.simps [of d remaining avail given])
  qed
qed

lemma redistributePartner_inv:
  assumes "redistributePartner rb p = (left, row)" and "billsLe noBills rb"
  shows "billsLe noBills left \<and> billsLe noBills (breakdown row)
         \<and> addBills left (breakdown row) = rb \<and> wholeDollarPayout row = wholeDollarPayout p"
proof -
  obtain r1 a1 g1 where 1: "allocateWhile 20 (wholeDollarPayout p, twenties rb, 0) = (r1, a1, g1)"
    by (metis prod_cases3)
  obtain r2 a2 g2 where 2: "allocateWhile 10 (r1, tens rb, 0) = (r2, a2, g2)"
    by (metis prod_cases3)
  obtain r3 a3 g3 where 3: "allocateWhile 5 (r2, fives rb, 0) = (r3, a3, g3)"
    by (metis prod_cases3)
  obtain r4 a4 g4 where 4: "allocateWhile 1 (r3, ones rb, 0) = (r4, a4, g4)"
    by (metis prod_cases3)
  from assms(2) have nn: "0 \<le> twenties rb" "0 \<le> tens rb" "0 \<le> fives rb" "0 \<le> ones rb"
    by (simp_all add: billsLe_def noBills_def)
  note i1 = allocateWhile_inv [OF 1 nn(1)]
  note i2 = allocateWhile_inv [OF 2 nn(2)]
  note i3 = allocateWhile_inv [OF 3 nn(3)]
  note i4 = allocateWhile_inv [OF 4 nn(4)]
  let ?left = "\<lparr>twenties = a1, tens = a2, fives = a3, ones = a4\<rparr>"
  let ?bd = "\<lparr>twenties = g1, tens = g2, fives = g3, ones = g4\<rparr>"
  let ?row = "\<lambda>bd rem. \<lparr>r_name = r_name p, r_number = r_number p, r_hours = r_hours p,
           decimalTip = decimalTip p, wholeDollarPayout = wholeDollarPayout p,
           breakdown = bd, adjustedPayout = wholeDollarPayout p - rem\<rparr>"
  consider (five) "r4 > 0 \<and> r4 \<le> 4 \<and> a3 > 0"
    | (ten) "r4 > 0 \<and> \<not> (r4 \<le> 4 \<and> a3 > 0) \<and> r4 \<le> 9 \<and> a2 > 0"
    | (twenty) "r4 > 0 \<and> \<not> (r4 \<le> 4 \<and> a3 > 0) \<and> \<not> (r4 \<le> 9 \<and> a2 > 0) \<and> r4 \<le> 19 \<and> a1 > 0"
    | (none) "\<not> r4 > 0 \<or> (\<not> (r4 \<le> 4 \<and> a3 > 0) \<and> \<not> (r4 \<le> 9 \<and> a2 > 0) \<and> \<not> (r4 \<le> 19 \<and> a1 > 0))"
    by blast
  then show ?thesis
  proof cases
    case five
    then have "redistributePartner rb p =
        (\<lparr>twenties = a1, tens = a2, fives = a3 - 1, ones = a4\<rparr>,
         ?row \<lparr>twenties = g1, tens = g2, fives = g3 + 1, ones = g4\<rparr> 0)"
      by (auto simp add: redistributePartner_def 1 2 3 4 Let_def)
    with assms(1) have "left = \<lparr>twenties = a1, tens = a2, fives = a3 - 1, ones = a4\<rparr>"
      "row = ?row \<lparr>twenties = g1, tens = g2, fives = g3 + 1, ones = g4\<rparr> 0" by simp_all
    with i1 i2 i3 i4 five show ?thesis
      by (simp add: billsLe_def noBills_def addBills_def)
  next
    case ten
    then have "redistributePartner rb p =
        (\<lparr>twenties = a1, tens = a2 - 1, fives = a3, ones = a4\<rparr>,
         ?row \<lparr>twenties = g1, tens = g2 + 1, fives = g3, ones = g4\<rparr> 0)"
      by (auto simp add: redistributePartner_def 1 2 3 4 Let_def)
    with assms(1) have "left = \<lparr>twenties = a1, tens = a2 - 1, fives = a3, ones = a4\<rparr>"
      "row = ?row \<lparr>twenties = g1, tens = g2 + 1, fives = g3, ones = g4\<rparr> 0" by simp_all
    with i1 i2 i3 i4 ten show ?thesis
      by (simp add: billsLe_def noBills_def addBills_def)
  next
    case twenty
    then have "redistributePartner rb p =
        (\<lparr>twenties = a1 - 1, tens = a2, fives = a3, ones = a4\<rparr>,
         ?row \<lparr>twenties = g1 + 1, tens = g2, fives = g3, ones = g4\<rparr> 0)"
      by (auto simp add: redistributePartner_def 1 2 3 4 Let_def)
    with assms(1) have "left = \<lparr>twenties = a1 - 1, tens = a2, fives = a3, ones = a4\<rparr>"
      "row = ?row \<lparr>twenties = g1 + 1, tens = g2, fives = g3, ones = g4\<rparr> 0" by simp_all
    with i1 i2 i3 i4 twenty show ?thesis
      by (simp add: billsLe_def noBills_def addBills_def)
  next
    case none
    then have "redistributePartner rb p = (?left, ?row ?bd r4)"
      by (auto simp add: redistributePartner_def 1 2 3 4 Let_def)
    with assms(1) have "left = ?left" "row = ?row ?bd r4" by simp_all
    with i1 i2 i3 i4 show ?thesis
      by (simp add: billsLe_def noBills_def addBills_def)
  qed
qed


lemma sumBills_simps:
  "sumBills [] = noBills" "sumBills (b # bs) = addBills b (sumBills bs)"
  by (simp_all add: sumBills_def)

lemma sumBills_append: "sumBills (xs @ ys) = addBills (sumBills xs) (sumBills ys)"
  by (induction xs) (simp_all add: sumBills_simps addBills_def noBills_def)

lemma sumBills_fields:
  "twenties (sumBills bs) = sum_list (map twenties bs)"
  "tens (sumBills bs) = sum_list (map tens bs)"
  "fives (sumBills bs) = sum_list (map fives bs)"
  "ones (sumBills bs) = sum_list (map ones bs)"
  by (induction bs) (simp_all add: sumBills_simps addBills_def noBills_def)

lemma redistributeStep_fold:
  assumes "billsLe noBills (remainingBills acc)"
  shows "billsLe noBills (remainingBills (foldl redistributeStep acc ps))
    \<and> addBills (remainingBills (foldl redistributeStep acc ps))
         (sumBills (map breakdown (updatedResults (foldl redistributeStep acc ps))))
       = addBills (remainingBills acc) (sumBills (map breakdown (updatedResults acc)))
    \<and> map wholeDollarPayout (updatedResults (foldl redistributeStep acc ps))
       = map wholeDollarPayout (updatedResults acc) @ map wholeDollarPayout ps
    \<and> ((\<forall>r \<in> set (updatedResults acc). billsLe noBills (breakdown r))
        \<longrightarrow> (\<forall>r \<in> set (updatedResults (foldl redistributeStep acc ps)).
               billsLe noBills (breakdown r)))"
  using assms
proof (induction ps arbitrary: acc)
  case Nil
  then show ?case by simp
next
  case (Cons p ps)
  obtain left row where lr: "redistributePartner (remainingBills acc) p = (left, row)"
    by (cases "redistributePartner (remainingBills acc) p")
  note i = redistributePartner_inv [OF lr Cons.prems]
  let ?acc = "redistributeStep acc p"
  have a: "remainingBills ?acc = left" "updatedResults ?acc = updatedResults acc @ [row]"
    by (simp_all add: redistributeStep_def lr)
  have nn: "billsLe noBills (remainingBills ?acc)" using i a by simp
  note ih = Cons.IH [OF nn]
  have c: "addBills left (sumBills (map breakdown (updatedResults acc @ [row])))
         = addBills (remainingBills acc) (sumBills (map breakdown (updatedResults acc)))"
  proof -
    have e: "remainingBills acc = addBills left (breakdown row)" using i by simp
    show ?thesis
      unfolding e by (simp add: sumBills_append sumBills_simps addBills_def noBills_def add_ac)
  qed
  show ?case
    unfolding foldl_Cons using ih i c unfolding a by auto
qed


lemma billsValue_sumBills:
  "billsValue (sumBills bs) = sum_list (map billsValue bs)"
  by (induction bs) (simp_all add: sumBills_simps addBills_def noBills_def billsValue_def)

text \<open>
  Claim C7. For every prior calculation result set and every non-negative bill inventory,
  the redistribution never assigns more notes of any denomination than the inventory
  supplies, so the total dollar value of the bills assigned across all partners never
  exceeds the inventory's total value; no count is negative; the partners are processed in
  descending \<open>wholeDollarPayout\<close> order. Without a prior calculation nothing is assigned.
\<close>

theorem redistributeBills_within_inventory:
  fixes available :: bills
  assumes "0 \<le> twenties available" "0 \<le> tens available" "0 \<le> fives available" "0 \<le> ones available"
  shows "case redistributeBills available st of
           None \<Rightarrow> lastCalculationResults st = []
         | Some rows \<Rightarrow>
             (\<Sum>r\<leftarrow>rows. twenties (breakdown r)) \<le> twenties available
           \<and> (\<Sum>r\<leftarrow>rows. tens (breakdown r)) \<le> tens available
           \<and> (\<Sum>r\<leftarrow>rows. fives (breakdown r)) \<le> fives available
           \<and> (\<Sum>r\<leftarrow>rows. ones (breakdown r)) \<le> ones available
           \<and> (\<Sum>r\<leftarrow>rows. billsValue (breakdown r)) \<le> billsValue available
           \<and> (\<forall>r \<in> set rows. 0 \<le> twenties (breakdown r) \<and> 0 \<le> tens (breakdown r)
                 \<and> 0 \<le> fives (breakdown r) \<and> 0 \<le> ones (breakdown r))
           \<and> map wholeDollarPayout rows
               = map wholeDollarPayout
                   (sort_key (\<lambda>r. - wholeDollarPayout r) (lastCalculationResults st))
           \<and> sorted (map (\<lambda>r. - wholeDollarPayout r) rows)"
proof (cases "lastCalculationResults st = []")
  case True
  then show ?thesis by (simp add: redistributeBills_def)
next
  case False
  let ?sorted = "sort_key (\<lambda>r. - wholeDollarPayout r) (lastCalculationResults st)"
  let ?init = "\<lparr>remainingBills = available, usedBills = noBills, updatedResults = []\<rparr>"
  let ?acc = "foldl redistributeStep ?init ?sorted"
  let ?rows = "updatedResults ?acc"
  have r: "redistributeBills available st = Some ?rows"
    using False by (simp add: redistributeBills_def)
  have nn: "billsLe noBills (remainingBills ?init)"
    using assms by (simp add: billsLe_def noBills_def)
  note f = redistributeStep_fold [OF nn, of ?sorted]
  from f have left: "billsLe noBills (remainingBills ?acc)" by blast
  from f have cons: "addBills (remainingBills ?acc) (sumBills (map breakdown ?rows)) = available"
    by (simp add: sumBills_simps addBills_def noBills_def)
  from f have pay: "map wholeDollarPayout ?rows = map wholeDollarPayout ?sorted" by simp
  from f have pos: "\<forall>r \<in> set ?rows. billsLe noBills (breakdown r)" by simp
  have tw: "twenties (remainingBills ?acc) + (\<Sum>r\<leftarrow>?rows. twenties (breakdown r)) = twenties available"
    using arg_cong [OF cons, of twenties]
    by (simp add: addBills_def sumBills_fields comp_def)
  have te: "tens (remainingBills ?acc) + (\<Sum>r\<leftarrow>?rows. tens (breakdown r)) = tens available"
    using arg_cong [OF cons, of tens]
    by (simp add: addBills_def sumBills_fields comp_def)
  have fi: "fives (remainingBills ?acc) + (\<Sum>r\<leftarrow>?rows. fives (breakdown r)) = fives available"
    using arg_cong [OF cons, of fives]
    by (simp add: addBills_def sumBills_fields comp_def)
  have on: "ones (remainingBills ?acc) + (\<Sum>r\<leftarrow>?rows. ones (breakdown r)) = ones available"
    using arg_cong [OF cons, of ones]
    by (simp add: addBills_def sumBills_fields comp_def)
  from left have l: "0 \<le> twenties (remainingBills ?acc)" "0 \<le> tens (remainingBills ?acc)"
    "0 \<le> fives (remainingBills ?acc)" "0 \<le> ones (remainingBills ?acc)"
    by (simp_all add: billsLe_def noBills_def)
  have val: "(\<Sum>r\<leftarrow>?rows. billsValue (breakdown r))
      = 20 * (\<Sum>r\<leftarrow>?rows. twenties (breakdown r)) + 10 * (\<Sum>r\<leftarrow>?rows. tens (breakdown r))
        + 5 * (\<Sum>r\<leftarrow>?rows. fives (breakdown r)) + (\<Sum>r\<leftarrow>?rows. ones (breakdown r))"
    using billsValue_sumBills [of "map breakdown ?rows"]
    by (simp add: billsValue_def sumBills_fields comp_def)
  have v: "(\<Sum>r\<leftarrow>?rows. billsValue (breakdown r)) \<le> billsValue available"
  proof -
    have "billsValue available
        = 20 * twenties available + 10 * tens available + 5 * fives available + ones available"
      by (simp add: billsValue_def)
    with val tw te fi on l show ?thesis by linarith
  qed
  have srt: "sorted (map (\<lambda>r. - wholeDollarPayout r) ?rows)"
  proof -
    have "map (\<lambda>r. - wholeDollarPayout r) ?rows = map uminus (map wholeDollarPayout ?rows)"
      by (simp add: comp_def)
    also have "\<dots> = map (\<lambda>r. - wholeDollarPayout r) ?sorted"
      unfolding pay by (simp add: comp_def)
    finally show ?thesis by simp
  qed
  have p: "\<forall>r \<in> set ?rows. 0 \<le> twenties (breakdown r) \<and> 0 \<le> tens (breakdown r)
                 \<and> 0 \<le> fives (breakdown r) \<and> 0 \<le> ones (breakdown r)"
    using pos by (simp add: billsLe_def noBills_def)
  have c: "(\<Sum>r\<leftarrow>?rows. twenties (breakdown r)) \<le> twenties available"
    "(\<Sum>r\<leftarrow>?rows. tens (breakdown r)) \<le> tens available"
    "(\<Sum>r\<leftarrow>?rows. fives (breakdown r)) \<le> fives available"
    "(\<Sum>r\<leftarrow>?rows. ones (breakdown r)) \<le> ones available"
    using tw te fi on l by linarith+
  show ?thesis
    unfolding r option.case using c v p pay srt by blast
qed

theorem redistributeBills_within_inventory_witness:
  "0 \<le> twenties example_inventory \<and> 0 \<le> tens example_inventory
   \<and> 0 \<le> fives example_inventory \<and> 0 \<le> ones example_inventory
   \<and> (\<exists>rows. redistributeBills example_inventory
                 (snd (runCalculations (Some 40) example_state)) = Some rows
        \<and> map (\<lambda>r. billsValue (breakdown r)) rows = [32, 0]
        \<and> (\<Sum>r\<leftarrow>rows. billsValue (breakdown r)) \<le> billsValue example_inventory
        \<and> map wholeDollarPayout rows = [27, 13])"
proof -
  have h: "0 \<le> twenties example_inventory" "0 \<le> tens example_inventory"
    "0 \<le> fives example_inventory" "0 \<le> ones example_inventory"
    by (simp_all add: example_inventory_def)
  let ?rows = "[\<lparr>r_name = ''B'', r_number = ''US2'', r_hours = 1848 / 100,
       decimalTip = 2661 / 100, wholeDollarPayout = 27,
       breakdown = \<lparr>twenties = 1, tens = 1, fives = 0, ones = 2\<rparr>, adjustedPayout = 27\<rparr>,
     \<lparr>r_name = ''A'', r_number = ''US1'', r_hours = 922 / 100,
       decimalTip = 1328 / 100, wholeDollarPayout = 13,
       breakdown = \<lparr>twenties = 0, tens = 0, fives = 0, ones = 0\<rparr>, adjustedPayout = 0\<rparr>]"
  have e: "redistributeBills example_inventory (snd (runCalculations (Some 40) example_state))
      = Some ?rows"
    by code_simp
  from redistributeBills_within_inventory [OF h,
      of "snd (runCalculations (Some 40) example_state)", unfolded e option.case]
  have "(\<Sum>r\<leftarrow>?rows. billsValue (breakdown r)) \<le> billsValue example_inventory"
    by blast
  with h e show ?thesis by (simp add: billsValue_def)
qed

section \<open>Properties of the two-period variants\<close>



lemma length_insort_by: "length (insort_by le x xs) = Suc (length xs)"
  by (induction xs) auto

lemma length_sort_by: "length (sort_by le xs) = length xs"
  by (induction xs) (simp_all add: sort_by_def length_insort_by)












lemma map_of_map_set: "map_of (map_set k v m) = (map_of m)(k \<mapsto> v)"
  by (induction m) (auto simp: fun_eq_iff)

lemma keys_map_set: "fst ` set (map_set k v m) = insert k (fst ` set m)"
proof (induction m)
  case Nil
  show ?case by simp
next
  case (Cons a m)
  obtain k' v' where a: "a = (k', v')" by (cases a)
  show ?case unfolding a using Cons.IH by (cases "k' = k") auto
qed

lemma distinct_map_set: "distinct (map fst m) \<Longrightarrow> distinct (map fst (map_set k v m))"
proof (induction m)
  case Nil
  show ?case by simp
next
  case (Cons a m)
  obtain k' v' where a: "a = (k', v')" by (cases a)
  from Cons.prems have d: "distinct (map fst m)" and n: "k' \<notin> fst ` set m"
    by (simp_all add: a)
  show ?case
  proof (cases "k' = k")
    case True
    with d n show ?thesis by (simp add: a)
  next
    case False
    with Cons.IH [OF d] n show ?thesis by (simp add: a keys_map_set)
  qed
qed

lemma addNormalPartner_props:
  "fst ` set ((addNormalPartner m p)) = insert (normalizeNameKey (rp_name p)) (fst ` set m)"
  "distinct (map fst m) \<Longrightarrow> distinct (map fst (addNormalPartner m p))"
  "normalHoursOf (addNormalPartner m p) k
     = normalHoursOf m k + (if normalizeNameKey (rp_name p) = k then rp_hours p else 0)"
  "holidayHoursOf (addNormalPartner m p) k = holidayHoursOf m k"
  by (auto simp add: addNormalPartner_def Let_def keys_map_set distinct_map_set
      normalHoursOf_def holidayHoursOf_def map_of_map_set split: option.splits)

lemma addHolidayPartner_props:
  "fst ` set ((addHolidayPartner m p)) = insert (normalizeNameKey (rp_name p)) (fst ` set m)"
  "distinct (map fst m) \<Longrightarrow> distinct (map fst (addHolidayPartner m p))"
  "holidayHoursOf (addHolidayPartner m p) k
     = holidayHoursOf m k + (if normalizeNameKey (rp_name p) = k then rp_hours p else 0)"
  "normalHoursOf (addHolidayPartner m p) k = normalHoursOf m k"
  by (auto simp add: addHolidayPartner_def Let_def keys_map_set distinct_map_set
      normalHoursOf_def holidayHoursOf_def map_of_map_set split: option.splits)

lemma hoursFor_Cons:
  "hoursFor k (p # ps) = (if normalizeNameKey (rp_name p) = k then rp_hours p else 0) + hoursFor k ps"
  by (simp add: hoursFor_def)

lemma foldl_addNormalPartner:
  "fst ` set ((foldl addNormalPartner m ps))
     = fst ` set m \<union> (\<lambda>p. normalizeNameKey (rp_name p)) ` set ps"
  "distinct (map fst m) \<Longrightarrow> distinct (map fst (foldl addNormalPartner m ps))"
  "normalHoursOf (foldl addNormalPartner m ps) k = normalHoursOf m k + hoursFor k ps"
  "holidayHoursOf (foldl addNormalPartner m ps) k = holidayHoursOf m k"
proof (induction ps arbitrary: m)
  case Nil
  { case 1 show ?case by simp }
  { case 2 then show ?case by simp }
  { case 3 show ?case by (simp add: hoursFor_def) }
  { case 4 show ?case by simp }
next
  case (Cons p ps)
  { case 1 show ?case by (simp add: Cons.IH(1) addNormalPartner_props(1)) }
  { case 2 then show ?case by (simp add: Cons.IH(2) addNormalPartner_props(2)) }
  { case 3 show ?case
      by (simp add: Cons.IH(3) addNormalPartner_props(3) hoursFor_Cons) }
  { case 4 show ?case by (simp add: Cons.IH(4) addNormalPartner_props(4)) }
qed

lemma foldl_addHolidayPartner:
  "fst ` set ((foldl addHolidayPartner m ps))
     = fst ` set m \<union> (\<lambda>p. normalizeNameKey (rp_name p)) ` set ps"
  "distinct (map fst m) \<Longrightarrow> distinct (map fst (foldl addHolidayPartner m ps))"
  "holidayHoursOf (foldl addHolidayPartner m ps) k = holidayHoursOf m k + hoursFor k ps"
  "normalHoursOf (foldl addHolidayPartner m ps) k = normalHoursOf m k"
proof (induction ps arbitrary: m)
  case Nil
  { case 1 show ?case by simp }
  { case 2 then show ?case by simp }
  { case 3 show ?case by (simp add: hoursFor_def) }
  { case 4 show ?case by simp }
next
  case (Cons p ps)
  { case 1 show ?case by (simp add: Cons.IH(1) addHolidayPartner_props(1)) }
  { case 2 then show ?case by (simp add: Cons.IH(2) addHolidayPartner_props(2)) }
  { case 3 show ?case
      by (simp add: Cons.IH(3) addHolidayPartner_props(3) hoursFor_Cons) }
  { case 4 show ?case by (simp add: Cons.IH(4) addHolidayPartner_props(4)) }
qed

lemma buildPartnerMap_props:
  "distinct (map fst (buildPartnerMap np hp))"
  "fst ` set (buildPartnerMap np hp)
     = (\<lambda>p. normalizeNameKey (rp_name p)) ` (set np \<union> set hp)"
  "normalHoursOf (buildPartnerMap np hp) k = hoursFor k np"
  "holidayHoursOf (buildPartnerMap np hp) k = hoursFor k hp"
proof -
  show "distinct (map fst (buildPartnerMap np hp))"
    unfolding buildPartnerMap_def
    by (intro foldl_addHolidayPartner(2) foldl_addNormalPartner(2)) simp
  show "fst ` set (buildPartnerMap np hp)
     = (\<lambda>p. normalizeNameKey (rp_name p)) ` (set np \<union> set hp)"
    unfolding buildPartnerMap_def foldl_addHolidayPartner(1) foldl_addNormalPartner(1)
    by (simp add: image_Un)
  show "normalHoursOf (buildPartnerMap np hp) k = hoursFor k np"
    unfolding buildPartnerMap_def foldl_addHolidayPartner(4) foldl_addNormalPartner(3)
    by (simp add: normalHoursOf_def)
  show "holidayHoursOf (buildPartnerMap np hp) k = hoursFor k hp"
    unfolding buildPartnerMap_def foldl_addHolidayPartner(3) foldl_addNormalPartner(4)
    by (simp add: holidayHoursOf_def)
qed

lemma findBestMatch_sound:
  assumes "findBestMatch norm1 used cands best score = Some (i, p2)"
  shows "best = Some (i, p2)
       \<or> ((i, p2) \<in> set cands \<and> i \<notin> used
           \<and> (norm1 = normalizeNameForMatch (rp_name p2)
               \<or> fuzzyMatch norm1 (normalizeNameForMatch (rp_name p2))))"
  using assms
proof (induction norm1 used cands best score rule: findBestMatch.induct)
  case (1 norm1 usedHoliday bestMatch bestScore)
  then show ?case by simp
next
  case (2 norm1 usedHoliday j q rest bestMatch bestScore)
  let ?norm2 = "normalizeNameForMatch (rp_name q)"
  let ?score = "real (min (length norm1) (length ?norm2))
                        / real (max (length norm1) (length ?norm2))"
  show ?case
  proof (cases "j \<in> usedHoliday")
    case True
    with "2.prems" have "findBestMatch norm1 usedHoliday rest bestMatch bestScore = Some (i, p2)"
      by simp
    from "2.IH"(1) [OF True this] show ?thesis by auto
  next
    case unused: False
    show ?thesis
    proof (cases "norm1 = ?norm2")
      case True
      with unused "2.prems" show ?thesis by (simp add: Let_def)
    next
      case ne: False
      show ?thesis
      proof (cases "str_includes norm1 ?norm2 \<or> str_includes ?norm2 norm1")
        case inc: True
        show ?thesis
        proof (cases "?score > bestScore \<and> ?score > 7 / 10")
          case True
          with unused ne inc "2.prems"
          have "findBestMatch norm1 usedHoliday rest (Some (j, q)) ?score = Some (i, p2)"
            by (simp add: Let_def)
          from "2.IH"(2) [OF unused refl ne inc refl True this] inc True unused
          show ?thesis by (auto simp: fuzzyMatch_def)
        next
          case False
          with unused ne inc "2.prems"
          have "findBestMatch norm1 usedHoliday rest bestMatch bestScore = Some (i, p2)"
            by (auto simp add: Let_def)
          from "2.IH"(3) [OF unused refl ne inc refl False this] show ?thesis by auto
        qed
      next
        case False
        with unused ne "2.prems"
        have "findBestMatch norm1 usedHoliday rest bestMatch bestScore = Some (i, p2)"
          by (simp add: Let_def)
        from "2.IH"(4) [OF unused refl ne False this] show ?thesis by auto
      qed
    qed
  qed
qed


lemma normalizeNameForMatch_eq: "normalizeNameForMatch = normalizeNameKey"
  by (simp add: fun_eq_iff normalizeNameForMatch_def normalizeNameKey_def)

lemma matchStep_sound:
  assumes "matchStep hol (matched, used) p1 = (matched', used')"
  shows "\<exists>mt. matched' = matched @ [mt] \<and> mt_regular mt = Some p1
           \<and> (\<forall>p2. mt_holiday mt = Some p2 \<longrightarrow> p2 \<in> set hol
                 \<and> (normalizeNameKey (rp_name p1) = normalizeNameKey (rp_name p2)
                     \<or> fuzzyMatch (normalizeNameKey (rp_name p1)) (normalizeNameKey (rp_name p2))))"
proof (cases "findBestMatch (normalizeNameForMatch (rp_name p1)) used
                (zip [0 ..< length hol] hol) None 0")
  case None
  with assms show ?thesis by (auto simp add: matchStep_def)
next
  case (Some a)
  obtain i p2 where a: "a = (i, p2)" by (cases a)
  from findBestMatch_sound [OF Some [unfolded a]]
  have "(i, p2) \<in> set (zip [0 ..< length hol] hol)"
    and c: "normalizeNameKey (rp_name p1) = normalizeNameKey (rp_name p2)
       \<or> fuzzyMatch (normalizeNameKey (rp_name p1)) (normalizeNameKey (rp_name p2))"
    by (simp_all add: normalizeNameForMatch_eq)
  then have "p2 \<in> set hol" by (auto dest: set_zip_rightD)
  with assms Some a c show ?thesis by (auto simp add: matchStep_def)
qed

lemma foldl_matchStep_sound:
  assumes "mt \<in> set (fst (foldl (matchStep hol) acc rs))"
  shows "mt \<in> set (fst acc)
       \<or> (\<exists>p1 \<in> set rs. mt_regular mt = Some p1
           \<and> (\<forall>p2. mt_holiday mt = Some p2 \<longrightarrow> p2 \<in> set hol
                 \<and> (normalizeNameKey (rp_name p1) = normalizeNameKey (rp_name p2)
                     \<or> fuzzyMatch (normalizeNameKey (rp_name p1))
                          (normalizeNameKey (rp_name p2)))))"
  using assms
proof (induction rs arbitrary: acc)
  case Nil
  then show ?case by simp
next
  case (Cons p rs)
  obtain matched used where acc: "acc = (matched, used)" by (cases acc)
  obtain matched' used' where st: "matchStep hol (matched, used) p = (matched', used')"
    by (cases "matchStep hol (matched, used) p")
  from matchStep_sound [OF st] obtain m1 where m1: "matched' = matched @ [m1]"
    "mt_regular m1 = Some p"
    "\<forall>p2. mt_holiday m1 = Some p2 \<longrightarrow> p2 \<in> set hol
                 \<and> (normalizeNameKey (rp_name p) = normalizeNameKey (rp_name p2)
                     \<or> fuzzyMatch (normalizeNameKey (rp_name p)) (normalizeNameKey (rp_name p2)))"
    by blast
  from Cons.prems have "mt \<in> set (fst (foldl (matchStep hol) (matched', used') rs))"
    by (simp add: acc st)
  from Cons.IH [OF this] show ?case
  proof
    assume "mt \<in> set (fst (matched', used'))"
    then have "mt \<in> set matched \<or> mt = m1" by (auto simp: m1(1))
    then show ?thesis
    proof
      assume "mt \<in> set matched"
      then show ?thesis by (simp add: acc)
    next
      assume "mt = m1"
      with m1(2,3) show ?thesis by auto
    qed
  next
    assume "\<exists>p1 \<in> set rs. mt_regular mt = Some p1
           \<and> (\<forall>p2. mt_holiday mt = Some p2 \<longrightarrow> p2 \<in> set hol
                 \<and> (normalizeNameKey (rp_name p1) = normalizeNameKey (rp_name p2)
                     \<or> fuzzyMatch (normalizeNameKey (rp_name p1))
                          (normalizeNameKey (rp_name p2))))"
    then show ?thesis by auto
  qed
qed

lemma matchPartners_sound:
  assumes "mt \<in> set (matchPartners rp hp)" and "mt_regular mt = Some p1"
    and "mt_holiday mt = Some p2"
  shows "p1 \<in> set rp \<and> p2 \<in> set hp
     \<and> (normalizeNameKey (rp_name p1) = normalizeNameKey (rp_name p2)
         \<or> fuzzyMatch (normalizeNameKey (rp_name p1)) (normalizeNameKey (rp_name p2)))"
proof -
  obtain matched used where f: "foldl (matchStep hp) ([], {}) rp = (matched, used)"
    by (cases "foldl (matchStep hp) ([], {}) rp")
  from assms(1,2) have "mt \<in> set matched"
    by (auto simp add: matchPartners_def f)
  then have "mt \<in> set (fst (foldl (matchStep hp) ([], {}) rp))" by (simp add: f)
  from foldl_matchStep_sound [OF this] assms(2,3) show ?thesis by auto
qed


text \<open>
  Claim C9, as amended. In the dashboard variant the records of the two periods are merged
  through a map keyed by the normalized name (lower-cased, everything but \<open>a .. z\<close>
  deleted): the keys of the entries are distinct, they are exactly the keys of the records
  of both periods, and each entry carries the sum of the normal hours and the sum of the
  holiday hours of the records with its key; there is one result row per entry. So two
  records end in one entry exactly when their keys are equal. In the automation variant
  (\<open>matchPartners\<close>) a regular and a holiday record are paired only if their keys are equal
  or one key contains the other with a ratio of lengths above 0.7.
\<close>

theorem merge_by_normalized_name:
  "distinct (map fst (buildPartnerMap normalPartners holidayPartners))
   \<and> fst ` set (buildPartnerMap normalPartners holidayPartners)
       = (\<lambda>p. normalizeNameKey (rp_name p)) ` (set normalPartners \<union> set holidayPartners)
   \<and> (\<forall>(k, e) \<in> set (buildPartnerMap normalPartners holidayPartners).
         mp_normalHours e = hoursFor k normalPartners
       \<and> mp_holidayHours e = hoursFor k holidayPartners)
   \<and> length (fst (calculateHolidaySplitTips le normalPartners holidayPartners nr hr))
       = length (buildPartnerMap normalPartners holidayPartners)
   \<and> (\<forall>mt \<in> set (matchPartners regularPartnersList holidayPartnersList). \<forall>p1 p2.
         mt_regular mt = Some p1 \<and> mt_holiday mt = Some p2
         \<longrightarrow> p1 \<in> set regularPartnersList \<and> p2 \<in> set holidayPartnersList
             \<and> (normalizeNameKey (rp_name p1) = normalizeNameKey (rp_name p2)
                 \<or> fuzzyMatch (normalizeNameKey (rp_name p1)) (normalizeNameKey (rp_name p2))))"
proof -
  let ?m = "buildPartnerMap normalPartners holidayPartners"
  note b = buildPartnerMap_props [of normalPartners holidayPartners]
  have h: "mp_normalHours e = hoursFor k normalPartners
       \<and> mp_holidayHours e = hoursFor k holidayPartners" if "(k, e) \<in> set ?m" for k e
  proof -
    from that b(1) have "map_of ?m k = Some e" by simp
    with b(3) [of k] b(4) [of k] show ?thesis
      by (simp add: normalHoursOf_def holidayHoursOf_def)
  qed
  have l: "length (fst (calculateHolidaySplitTips le normalPartners holidayPartners nr hr))
       = length ?m"
    by (simp add: calculateHolidaySplitTips_def Let_def length_sort_by)
  have h': "\<forall>(k, e) \<in> set ?m. mp_normalHours e = hoursFor k normalPartners
       \<and> mp_holidayHours e = hoursFor k holidayPartners"
    using h by blast
  have s: "\<forall>mt \<in> set (matchPartners regularPartnersList holidayPartnersList). \<forall>p1 p2.
         mt_regular mt = Some p1 \<and> mt_holiday mt = Some p2
         \<longrightarrow> p1 \<in> set regularPartnersList \<and> p2 \<in> set holidayPartnersList
             \<and> (normalizeNameKey (rp_name p1) = normalizeNameKey (rp_name p2)
                 \<or> fuzzyMatch (normalizeNameKey (rp_name p1)) (normalizeNameKey (rp_name p2)))"
    using matchPartners_sound by blast
  show ?thesis
    by (intro conjI) (rule b(1) b(2) h' l s)+
qed

theorem merge_by_normalized_name_witness:
  "buildPartnerMap example_normal example_holiday
     = [(''smithann'', \<lparr>mp_name = ''Smith, Ann'', mp_number = ''US1'',
            mp_normalHours = 1 / 2, mp_holidayHours = 1 / 2\<rparr>)]
   \<and> hoursFor ''smithann'' example_normal = 1 / 2
   \<and> hoursFor ''smithann'' example_holiday = 1 / 2
   \<and> fuzzyMatch (normalizeNameKey ''Ailuogwemhe, Jodie O'')
        (normalizeNameKey ''Ailuogwemhe, Jodie'')"
proof -
  let ?e = "\<lparr>mp_name = ''Smith, Ann'', mp_number = ''US1'',
            mp_normalHours = 1 / 2, mp_holidayHours = 1 / 2\<rparr>"
  let ?A = "\<lparr>rp_name = ''Ailuogwemhe, Jodie O'', rp_number = ''US37008498'',
              rp_hours = 922 / 100\<rparr>"
  let ?B = "\<lparr>rp_name = ''Ailuogwemhe, Jodie'', rp_number = [], rp_hours = 4\<rparr>"
  let ?mt = "\<lparr>mt_name = ''Ailuogwemhe, Jodie O'', mt_regular = Some ?A, mt_holiday = Some ?B\<rparr>"
  have m: "buildPartnerMap example_normal example_holiday = [(''smithann'', ?e)]"
    by code_simp
  have p: "matchPartners example_regular_O example_holiday_noO = [?mt]"
    by code_simp
  have ne: "normalizeNameKey ''Ailuogwemhe, Jodie O'' \<noteq> normalizeNameKey ''Ailuogwemhe, Jodie''"
    by code_simp
  note t = merge_by_normalized_name [of example_normal example_holiday "\<lambda>a b. True" 1 1
      example_regular_O example_holiday_noO, unfolded m p]
  from t have 1: "mp_normalHours ?e = hoursFor ''smithann'' example_normal
       \<and> mp_holidayHours ?e = hoursFor ''smithann'' example_holiday"
    by simp
  from t have "mt_regular ?mt = Some ?A \<and> mt_holiday ?mt = Some ?B
         \<longrightarrow> (normalizeNameKey (rp_name ?A) = normalizeNameKey (rp_name ?B)
                 \<or> fuzzyMatch (normalizeNameKey (rp_name ?A)) (normalizeNameKey (rp_name ?B)))"
    by simp
  with ne have 2: "fuzzyMatch (normalizeNameKey ''Ailuogwemhe, Jodie O'')
        (normalizeNameKey ''Ailuogwemhe, Jodie'')"
    by simp
  from m 1 2 show ?thesis by simp
qed

text \<open>
  Claim C9 as stated fails in the automation variant: \<open>matchPartners\<close> merges the regular
  record \<open>Ailuogwemhe, Jodie O\<close> and the holiday record \<open>Ailuogwemhe, Jodie\<close> into one entry,
  although the keys \<open>ailuogwemhejodieo\<close> and \<open>ailuogwemhejodie\<close> differ.
\<close>

theorem matchPartners_merges_different_keys:
  "matchPartners example_regular_O example_holiday_noO
     = [\<lparr>mt_name = ''Ailuogwemhe, Jodie O'',
         mt_regular = Some \<lparr>rp_name = ''Ailuogwemhe, Jodie O'', rp_number = ''US37008498'',
                           rp_hours = 922 / 100\<rparr>,
         mt_holiday = Some \<lparr>rp_name = ''Ailuogwemhe, Jodie'', rp_number = [], rp_hours = 4\<rparr>\<rparr>]
   \<and> normalizeNameKey ''Ailuogwemhe, Jodie O'' = ''ailuogwemhejodieo''
   \<and> normalizeNameKey ''Ailuogwemhe, Jodie'' = ''ailuogwemhejodie''
   \<and> normalizeNameKey ''Ailuogwemhe, Jodie O'' \<noteq> normalizeNameKey ''Ailuogwemhe, Jodie''"
  by code_simp

text \<open>
  Equal keys do not suffice in \<open>matchPartners\<close>: a holiday record is paired once. In the
  example the first regular record takes the holiday record on a partial match (ratio 8/9),
  and the second, whose key is the holiday record's key, stays without one.
\<close>

lemma matchPartners_leaves_equal_keys_unpaired:
  "matchPartners example_regular_Anna_Ann example_holiday
     = [\<lparr>mt_name = ''Smith, Anna'',
          mt_regular = Some \<lparr>rp_name = ''Smith, Anna'', rp_number = ''US7'', rp_hours = 5\<rparr>,
          mt_holiday = Some \<lparr>rp_name = ''SMITH ANN'', rp_number = [], rp_hours = 1 / 2\<rparr>\<rparr>,
        \<lparr>mt_name = ''Smith, Ann'',
          mt_regular = Some \<lparr>rp_name = ''Smith, Ann'', rp_number = ''US1'', rp_hours = 922 / 100\<rparr>,
          mt_holiday = None\<rparr>]
   \<and> normalizeNameForMatch ''Smith, Ann'' = normalizeNameForMatch ''SMITH ANN''
   \<and> normalizeNameForMatch ''Smith, Anna'' \<noteq> normalizeNameForMatch ''SMITH ANN''"
  by code_simp

section \<open>Properties of the text normalizer\<close>

lemma replaceAllFrom_skip:
  "k \<le> length t \<Longrightarrow> replaceAllFrom rx rep k t = replaceAllFrom rx rep 0 (drop k t)"
proof (induction t arbitrary: k)
  case Nil
  then show ?case by simp
next
  case (Cons c cs)
  show ?case
  proof (cases k)
    case 0
    then show ?thesis by simp
  next
    case (Suc j)
    with Cons.prems have "j \<le> length cs" by simp
    from Cons.IH [OF this] Suc show ?thesis by simp
  qed
qed

lemma replaceAll_no_match:
  "\<not> rx_test False False rx t \<Longrightarrow> replaceAll rx rep t = t"
proof (induction t)
  case Nil
  then show ?case by (simp add: replaceAll_def rx_test_def)
next
  case (Cons c cs)
  have n: "rx_first False rx (c # cs) = None"
  proof (rule ccontr)
    assume "rx_first False rx (c # cs) \<noteq> None"
    then have "rx_test False False rx (c # cs)" by (simp add: rx_test_def del: not_None_eq)
    with Cons.prems show False by simp
  qed
  have r: "\<not> rx_test False False rx cs"
  proof
    assume "rx_test False False rx cs"
    then have "rx_test False False rx (c # cs)" by (simp add: rx_test_def del: not_None_eq)
    with Cons.prems show False by simp
  qed
  from Cons.IH [OF r] n show ?case by (simp add: replaceAll_def)
qed

lemma foldl_replaceAll_no_match:
  "\<forall>p \<in> set ps. \<not> rx_test False False p t
     \<Longrightarrow> foldl (\<lambda>cleaned pattern. replaceAll pattern rep cleaned) t ps = t"
  by (induction ps) (simp_all add: replaceAll_no_match)

lemma rx_first_spaces:
  "rx_first False whitespaceRun s =
     (if s \<noteq> [] \<and> isSpace (hd s) then Some ([takeWhile isSpace s], dropWhile isSpace s)
      else None)"
proof (cases "s \<noteq> [] \<and> isSpace (hd s)")
  case False
  then have "takeWhile isSpace s = []" by (cases s) auto
  with False show ?thesis by (simp add: whitespaceRun_def rx_first_def)
next
  case True
  define n where "n = length (takeWhile isSpace s)"
  from True have "0 < n" by (cases s) (auto simp: n_def)
  then have u: "[Suc 0 ..< Suc n] = [Suc 0 ..< n] @ [n]" by simp
  have t: "take n s = takeWhile isSpace s" "drop n s = dropWhile isSpace s"
    unfolding n_def by (simp_all add: takeWhile_eq_take [symmetric] dropWhile_eq_drop [symmetric])
  show ?thesis
    using True by (simp add: whitespaceRun_def rx_first_def n_def [symmetric] u t del: upt_Suc)
qed


lemma collapse_Cons:
  "replaceAll whitespaceRun '' '' (c # cs) =
     (if isSpace c then CHR '' '' # replaceAll whitespaceRun '' '' (dropWhile isSpace cs)
      else c # replaceAll whitespaceRun '' '' cs)"
proof (cases "isSpace c")
  case False
  then show ?thesis by (simp add: replaceAll_def rx_first_spaces)
next
  case True
  have l: "length (takeWhile isSpace cs) \<le> length cs" by (rule length_takeWhile_le)
  have d: "drop (length (takeWhile isSpace cs)) cs = dropWhile isSpace cs"
    by (simp add: dropWhile_eq_drop [symmetric])
  from True show ?thesis
    by (simp add: replaceAll_def rx_first_spaces replaceAllFrom_skip [OF l] d)
qed

lemma collapse_Nil: "replaceAll whitespaceRun '' '' [] = []"
  by (simp add: replaceAll_def rx_first_spaces)

lemma collapse_hd:
  "t \<noteq> [] \<Longrightarrow> \<not> isSpace (hd t)
     \<Longrightarrow> replaceAll whitespaceRun '' '' t \<noteq> []
         \<and> hd (replaceAll whitespaceRun '' '' t) = hd t"
  by (cases t) (simp_all add: collapse_Cons)

lemma dropWhile_hd: "dropWhile P xs = [] \<or> \<not> P (hd (dropWhile P xs))"
  by (induction xs) auto

lemma spacesSingle_collapse:
  "spacesSingle (replaceAll whitespaceRun '' '' t)"
proof (induction t rule: length_induct)
  case (1 t)
  show ?case
  proof (cases t)
    case Nil
    then show ?thesis by (simp add: collapse_Nil)
  next
    case (Cons c cs)
    show ?thesis
    proof (cases "isSpace c")
      case False
      have "length cs < length t" by (simp add: Cons)
      with 1 have "spacesSingle (replaceAll whitespaceRun '' '' cs)" by blast
      with False show ?thesis by (simp add: Cons collapse_Cons)
    next
      case True
      let ?r = "dropWhile isSpace cs"
      have "length ?r < length t"
        using length_dropWhile_le [of isSpace cs] by (simp add: Cons)
      with 1 have s: "spacesSingle (replaceAll whitespaceRun '' '' ?r)" by blast
      have h: "replaceAll whitespaceRun '' '' ?r = []
           \<or> \<not> isSpace (hd (replaceAll whitespaceRun '' '' ?r))"
      proof (cases "?r = []")
        case True
        have "replaceAll whitespaceRun '' '' ?r = []"
          unfolding True by (rule collapse_Nil)
        then show ?thesis ..
      next
        case False
        from hd_dropWhile [OF False] have "\<not> isSpace (hd ?r)" .
        from collapse_hd [OF False this] this show ?thesis by simp
      qed
      from True s h show ?thesis by (simp add: Cons collapse_Cons)
    qed
  qed
qed

lemma collapse_spacesSingle:
  "spacesSingle t \<Longrightarrow> replaceAll whitespaceRun '' '' t = t"
proof (induction t)
  case Nil
  show ?case by (simp add: collapse_Nil)
next
  case (Cons c cs)
  from Cons.prems have s: "spacesSingle cs" by simp
  show ?case
  proof (cases "isSpace c")
    case False
    with Cons.IH [OF s] show ?thesis by (simp add: collapse_Cons)
  next
    case True
    with Cons.prems have c: "c = CHR '' ''" and h: "cs = [] \<or> \<not> isSpace (hd cs)" by simp_all
    from h have "dropWhile isSpace cs = cs" by (cases cs) auto
    with True c Cons.IH [OF s] show ?thesis by (simp add: collapse_Cons)
  qed
qed

lemma spacesSingle_tl: "spacesSingle (c # cs) \<Longrightarrow> spacesSingle cs"
  by simp

lemma spacesSingle_dropWhile: "spacesSingle t \<Longrightarrow> spacesSingle (dropWhile P t)"
  by (induction t) auto

lemma spacesSingle_prefix: "spacesSingle (xs @ ys) \<Longrightarrow> spacesSingle xs"
proof (induction xs)
  case Nil
  show ?case by simp
next
  case (Cons c xs)
  from Cons.prems have "spacesSingle (xs @ ys)" by simp
  from Cons.IH [OF this] Cons.prems show ?case by (cases xs) auto
qed

lemma trim_prefix: "\<exists>zs. dropWhile isSpace t = trim t @ zs"
proof -
  let ?u = "dropWhile isSpace t"
  have "?u = rev (dropWhile isSpace (rev ?u)) @ rev (takeWhile isSpace (rev ?u))"
    by (metis rev_append rev_rev_ident takeWhile_dropWhile_id)
  then show ?thesis unfolding trim_def by blast
qed

lemma spacesSingle_trim: "spacesSingle t \<Longrightarrow> spacesSingle (trim t)"
proof -
  assume "spacesSingle t"
  then have s: "spacesSingle (dropWhile isSpace t)" by (rule spacesSingle_dropWhile)
  from trim_prefix [of t] obtain zs where "dropWhile isSpace t = trim t @ zs" by blast
  with s show ?thesis by (simp add: spacesSingle_prefix)
qed

lemma trim_ends:
  "trim t = [] \<or> (\<not> isSpace (hd (trim t)) \<and> \<not> isSpace (last (trim t)))"
proof (cases "trim t = []")
  case True
  then show ?thesis by simp
next
  case False
  let ?u = "dropWhile isSpace t"
  let ?v = "dropWhile isSpace (rev ?u)"
  have tv: "trim t = rev ?v" by (simp add: trim_def)
  from False have v: "?v \<noteq> []" by (simp add: tv)
  from hd_dropWhile [OF v] have hv: "\<not> isSpace (hd ?v)" .
  have l: "last (trim t) = hd ?v" using v by (simp add: tv last_rev)
  from trim_prefix [of t] obtain zs where z: "?u = trim t @ zs" by blast
  with False have "hd ?u = hd (trim t)" by (metis hd_append2)
  moreover have "?u \<noteq> []" using z False by auto
  moreover have "?u \<noteq> [] \<longrightarrow> \<not> isSpace (hd ?u)" using hd_dropWhile [of isSpace t] by blast
  ultimately have "\<not> isSpace (hd (trim t))" by metis
  with l hv show ?thesis by simp
qed

lemma trim_id:
  assumes "t = [] \<or> (\<not> isSpace (hd t) \<and> \<not> isSpace (last t))"
  shows "trim t = t"
proof (cases "t = []")
  case True
  then show ?thesis by (simp add: trim_def)
next
  case False
  with assms have h: "\<not> isSpace (hd t)" and l: "\<not> isSpace (last t)" by simp_all
  from False h have 1: "dropWhile isSpace t = t" by (cases t) auto
  from False l have "\<not> isSpace (hd (rev t))" by (simp add: hd_rev)
  with False have 2: "dropWhile isSpace (rev t) = rev t" by (cases "rev t") auto
  show ?thesis by (simp add: trim_def 1 2)
qed

lemma trim_trim: "trim (trim t) = trim t"
  by (rule trim_id) (rule trim_ends)

lemma normalize_whitespace_idem:
  "trim (replaceAll whitespaceRun '' ''
           (trim (replaceAll whitespaceRun '' '' t)))
     = trim (replaceAll whitespaceRun '' '' t)"
proof -
  let ?c = "replaceAll whitespaceRun '' '' t"
  have "spacesSingle (trim ?c)" by (intro spacesSingle_trim spacesSingle_collapse)
  then have "replaceAll whitespaceRun '' '' (trim ?c) = trim ?c"
    by (rule collapse_spacesSingle)
  then show ?thesis by (simp add: trim_trim)
qed


text \<open>
  Claim C5, as amended. \<open>stripMetadataTokens\<close> is a function of its argument alone. Its
  result is whitespace-normal and trimmed, and normalizing the white space of the result
  again changes nothing. \<open>stripMetadataTokens (stripMetadataTokens s)\<close> equals
  \<open>stripMetadataTokens s\<close> whenever \<open>stripMetadataTokens s\<close> contains no match of a metadata
  pattern.
\<close>

theorem stripMetadataTokens_idempotent_when_clean:
  "spacesSingle (stripMetadataTokens s)
   \<and> trim (stripMetadataTokens s) = stripMetadataTokens s
   \<and> trim (replaceAll whitespaceRun '' '' (stripMetadataTokens s)) = stripMetadataTokens s
   \<and> ((\<forall>p \<in> set METADATA_PATTERNS. \<not> rx_test False False p (stripMetadataTokens s))
        \<longrightarrow> stripMetadataTokens (stripMetadataTokens s) = stripMetadataTokens s)"
proof -
  let ?y = "stripMetadataTokens s"
  obtain t where y: "?y = trim (replaceAll whitespaceRun '' '' t)"
  proof (cases "s = []")
    case True
    then have "?y = trim (replaceAll whitespaceRun '' '' [])"
      by (simp add: stripMetadataTokens_def collapse_Nil trim_def)
    then show ?thesis by (rule that)
  next
    case False
    then have "?y = trim (replaceAll whitespaceRun '' ''
        (foldl (\<lambda>cleaned pattern. replaceAll pattern '' '' cleaned) s METADATA_PATTERNS))"
      by (simp add: stripMetadataTokens_def Let_def)
    then show ?thesis by (rule that)
  qed
  have 1: "spacesSingle ?y"
    unfolding y by (intro spacesSingle_trim spacesSingle_collapse)
  have 2: "trim ?y = ?y" unfolding y by (rule trim_trim)
  have 3: "trim (replaceAll whitespaceRun '' '' ?y) = ?y"
    unfolding y by (rule normalize_whitespace_idem)
  have 4: "stripMetadataTokens ?y = ?y"
    if n: "\<forall>p \<in> set METADATA_PATTERNS. \<not> rx_test False False p ?y"
  proof (cases "?y = []")
    case True
    then show ?thesis by (simp add: stripMetadataTokens_def)
  next
    case False
    have "stripMetadataTokens ?y = trim (replaceAll whitespaceRun '' ''
        (foldl (\<lambda>cleaned pattern. replaceAll pattern '' '' cleaned) ?y METADATA_PATTERNS))"
      using False by (simp add: stripMetadataTokens_def [of ?y] Let_def)
    also have "\<dots> = trim (replaceAll whitespaceRun '' '' ?y)"
      by (simp only: foldl_replaceAll_no_match [OF n])
    also have "\<dots> = ?y" by (rule 3)
    finally show ?thesis .
  qed
  from 1 2 3 4 show ?thesis by blast
qed

theorem stripMetadataTokens_idempotent_when_clean_witness:
  "stripMetadataTokens example_report_text = ''Smith, Ann US123 9.22''
   \<and> stripMetadataTokens (stripMetadataTokens example_report_text)
       = stripMetadataTokens example_report_text"
proof -
  have v: "stripMetadataTokens example_report_text = ''Smith, Ann US123 9.22''"
    by code_simp
  have n: "\<forall>p \<in> set METADATA_PATTERNS. \<not> rx_test False False p ''Smith, Ann US123 9.22''"
    by code_simp
  from stripMetadataTokens_idempotent_when_clean [of example_report_text] n v
  show ?thesis by simp
qed

text \<open>
  Claim C5 as stated fails. The patterns are applied once, in order, and removing a match
  can join the pieces of another match: in the text with the three lines \<open>Store\<close>,
  \<open>Time Period: 08/01/2025\<close>, \<open>Number 69600\<close> the second line is removed and the result is
  \<open>Store Number 69600\<close>, which the first pattern matches as a whole, so the second
  application gives the empty text. The same happens on the single line
  \<open>Store Store Number 1 Number 2\<close>.
\<close>

theorem stripMetadataTokens_not_idempotent:
  "stripMetadataTokens example_split_header_text = ''Store Number 69600''
   \<and> stripMetadataTokens ''Store Number 69600'' = []
   \<and> stripMetadataTokens (stripMetadataTokens example_split_header_text)
       \<noteq> stripMetadataTokens example_split_header_text
   \<and> stripMetadataTokens ''Store Store Number 1 Number 2'' = ''Store Number 2''
   \<and> stripMetadataTokens ''Store Number 2'' = []"
  by code_simp

section \<open>Properties of the record extractor\<close>

lemma hoursInRange_accepted:
  "hoursInRange h \<Longrightarrow> hoursAccepted \<lparr>rp_name = n, rp_number = m, rp_hours = the h\<rparr>"
  by (cases h) (simp_all add: hoursInRange_def hoursAccepted_def)

lemma pattern4_in_range:
  assumes "pattern4 l = Some e"
  shows "hoursAccepted e"
  using assms
  by (auto simp add: pattern4_def Let_def hoursInRange_accepted
      split: option.splits list.splits if_splits)

lemma pattern5_in_range:
  assumes "pattern5 l = Some e"
  shows "hoursAccepted e"
  using assms
  by (auto simp add: pattern5_def Let_def hoursInRange_accepted split: if_splits prod.splits)

lemma columnarLoop_step:
  assumes "list_all hoursAccepted (columnarLoop rest)"
    and "list_all hoursAccepted (columnarLoop (drop 3 rest))"
    and "list_all hoursAccepted (columnarLoop (drop 2 rest))"
  shows "list_all hoursAccepted (columnarLoop (line # rest))"
  unfolding columnarLoop.simps(2) [of line rest] Let_def
  using assms by (simp add: hoursInRange_accepted split: option.split)

lemma columnarLoop_in_range_aux:
  "length ls \<le> n \<Longrightarrow> list_all hoursAccepted (columnarLoop ls)"
proof (induction n arbitrary: ls)
  case 0
  then show ?case by (simp add: columnarLoop.simps(1))
next
  case (Suc n)
  show ?case
  proof (cases ls)
    case Nil
    then show ?thesis by (simp add: columnarLoop.simps(1))
  next
    case (Cons line rest)
    with Suc.prems have l: "length rest \<le> n" by simp
    then have "length (drop 3 rest) \<le> n" "length (drop 2 rest) \<le> n" by simp_all
    with l Suc.IH show ?thesis
      unfolding Cons by (intro columnarLoop_step) blast+
  qed
qed

lemma parseColumnarFormat_in_range:
  "list_all hoursAccepted (parseColumnarFormat text)"
  by (simp add: parseColumnarFormat_def Let_def columnarLoop_in_range_aux [OF order_refl])

lemma bucketLoop_in_range:
  "list_all hoursAccepted (bucketLoop skip cur toks)"
proof (induction toks arbitrary: cur)
  case Nil
  show ?case by simp
next
  case (Cons t toks)
  show ?case
    by (simp add: Let_def hoursInRange_accepted Cons.IH)
qed

lemma parseByTokenBuckets_in_range:
  "list_all hoursAccepted (parseByTokenBuckets text skip)"
  by (simp add: parseByTokenBuckets_def bucketLoop_in_range)

lemma parseHoursValue_range: "0 \<le> parseHoursValue s \<and> parseHoursValue s < 200"
  by (simp add: parseHoursValue_def Let_def split: option.split)

lemma table_entry_in_range:
  assumes "isValidPartnerEntry \<lparr>rp_name = n, rp_number = m, rp_hours = parseHoursValue s\<rparr>"
  shows "hoursAccepted \<lparr>rp_name = n, rp_number = m, rp_hours = parseHoursValue s\<rparr>"
proof -
  from assms have "\<not> (parseHoursValue s = 0 \<or> parseHoursValue s \<le> 0)"
    unfolding isValidPartnerEntry_def Let_def by (simp split: if_splits)
  with parseHoursValue_range [of s] show ?thesis by (simp add: hoursAccepted_def)
qed

text \<open>
  Claim C4 says that every record returned by extraction has hours strictly between 0 and
  200. The columnar parser, patterns 4 and 5, the token buckets and the table path check
  this range (the lemmas above); patterns 1 to 3 check only that the hours are finite. So
  the line
  \<open>69600 Ailuogwemhe, Jodie O US37008498 250\<close> is accepted by pattern 1 with 250 hours, and
  the line \<open>Smith, Ann US123 0\<close> by pattern 2 with 0 hours.
\<close>

theorem parseOcrToPartners_accepts_hours_out_of_range:
  "parseOcrToPartners ''69600 Ailuogwemhe, Jodie O US37008498 250''
     = [\<lparr>rp_name = ''Ailuogwemhe, Jodie O'', rp_number = ''US37008498'', rp_hours = 250\<rparr>]
   \<and> parseOcrToPartners ''Smith, Ann US123 0''
     = [\<lparr>rp_name = ''Smith, Ann'', rp_number = ''US123'', rp_hours = 0\<rparr>]"
  by code_simp

text \<open>The two extraction examples of the specification.\<close>

lemma extraction_examples:
  "parseOcrToPartners ''69600 Ailuogwemhe, Jodie O US37008498 9.22''
     = [\<lparr>rp_name = ''Ailuogwemhe, Jodie O'', rp_number = ''US37008498'', rp_hours = 922 / 100\<rparr>]"
  "parseOcrToPartners ''08/01/2025 - 08/07/2025'' = []"
  by code_simp+

end
